theory Spec2Isabelle
  imports Main "HOL-Library.Sublist"
begin

section \<open>Python strings\<close>

text \<open>
  A Python \<open>str\<close> is a sequence of code points. It is modelled as a \<open>string\<close> in which
  every \<open>char\<close> is one code point (the code points 0 to 255, read as Latin-1), so that
  \<open>length\<close> counts what Python's \<open>len\<close> counts. Code points above 255 are outside the
  model. The character classes below are Python's own (\<open>str.isalnum\<close>, \<open>str.isspace\<close>,
  \<open>str.lower\<close>), written out for these 256 code points.
\<close>

definition cp :: "char \<Rightarrow> nat" where
  "cp c = of_char c"

definition isalnum :: "char \<Rightarrow> bool" where
  "isalnum c = (let n = cp c in
     (48 \<le> n \<and> n \<le> 57) \<or> (65 \<le> n \<and> n \<le> 90) \<or> (97 \<le> n \<and> n \<le> 122) \<or>
     n = 170 \<or> n = 178 \<or> n = 179 \<or> n = 181 \<or> n = 185 \<or> n = 186 \<or>
     n = 188 \<or> n = 189 \<or> n = 190 \<or>
     (192 \<le> n \<and> n \<le> 214) \<or> (216 \<le> n \<and> n \<le> 246) \<or> 248 \<le> n)"

definition isspace :: "char \<Rightarrow> bool" where
  "isspace c = (let n = cp c in
     (9 \<le> n \<and> n \<le> 13) \<or> (28 \<le> n \<and> n \<le> 32) \<or> n = 133 \<or> n = 160)"

definition lower_char :: "char \<Rightarrow> char" where
  "lower_char c = (let n = cp c in
     if (65 \<le> n \<and> n \<le> 90) \<or> (192 \<le> n \<and> n \<le> 222 \<and> n \<noteq> 215)
     then char_of (n + 32) else c)"

definition lower :: "string \<Rightarrow> string" where
  "lower s = map lower_char s"

definition strip :: "string \<Rightarrow> string" where
  "strip s = rev (dropWhile isspace (rev (dropWhile isspace s)))"

definition endswith :: "string \<Rightarrow> string \<Rightarrow> bool" where
  "endswith s suf = (length suf \<le> length s \<and> drop (length s - length suf) s = suf)"

section \<open>Python values, the session state and the file store\<close>

text \<open>
  The values the program keeps in \<open>st.session_state\<close>, writes with \<open>json.dump\<close> and reads
  with \<open>json.load\<close> are Python objects of the JSON kinds. A dict is an association list
  in insertion order; a Python dict has no duplicate keys.
\<close>

datatype pyfloat = Finite int int | PosInf | NegInf | NaN

datatype json =
    JNull
  | JBool bool
  | JInt int
  | JFloat pyfloat
  | JStr string
  | JList "json list"
  | JObj "(string \<times> json) list"

text \<open>Truth value of a Python object, as \<open>if loaded:\<close> tests it.\<close>

fun truthy :: "json \<Rightarrow> bool" where
  "truthy JNull = False"
| "truthy (JBool b) = b"
| "truthy (JInt i) = (i \<noteq> 0)"
| "truthy (JFloat (Finite m e)) = (m \<noteq> 0)"
| "truthy (JFloat f) = True"
| "truthy (JStr s) = (s \<noteq> [])"
| "truthy (JList xs) = (xs \<noteq> [])"
| "truthy (JObj kvs) = (kvs \<noteq> [])"

type_synonym state = "string \<rightharpoonup> json"

text \<open>\<open>d.get(k, default)\<close> on the session state and on a loaded dict.\<close>

definition get :: "state \<Rightarrow> string \<Rightarrow> json \<Rightarrow> json" where
  "get d k dflt = (case d k of None \<Rightarrow> dflt | Some v \<Rightarrow> v)"

definition obj_get :: "(string \<times> json) list \<Rightarrow> string \<Rightarrow> json \<Rightarrow> json" where
  "obj_get kvs k dflt = (case map_of kvs k of None \<Rightarrow> dflt | Some v \<Rightarrow> v)"

datatype error =
    OSError
  | JSONDecodeError
  | AttributeError
  | TypeError
  | KeyError
  | RuntimeError string
  | BaseException string

text \<open>
  The store directory. A file holds either a JSON document (the value \<open>json.load\<close>
  returns for it, which for a file written by \<open>json.dump\<close> is the value dumped) or text
  that is not valid JSON. \<open>open\<close> raises \<open>OSError\<close> on a path the process may not write
  (mode \<open>"w"\<close>) or may not read (mode \<open>"r"\<close>).
\<close>

datatype stored_file = Document json | NotJson string

record filesystem =
  entries :: "string \<rightharpoonup> stored_file"
  readable :: "string \<Rightarrow> bool"
  writable :: "string \<Rightarrow> bool"

section \<open>Session store\<close>

definition DATA_DIR :: string where
  "DATA_DIR = ''data''"

definition keeps :: "char \<Rightarrow> bool" where
  "keeps ch = (isalnum ch \<or> ch \<in> set ''-_ .'')"

text \<open>\<open>os.path.join\<close> on POSIX; the second component never starts with a slash.\<close>

definition session_path :: "string \<Rightarrow> string" where
  "session_path name = (let safe = filter keeps name in DATA_DIR @ ''/'' @ safe @ ''.json'')"

text \<open>\<open>now\<close> is the reading \<open>datetime.datetime.utcnow().isoformat()\<close> of the clock.\<close>

definition save_session :: "string \<Rightarrow> string \<Rightarrow> state \<Rightarrow> filesystem \<Rightarrow> error + filesystem" where
  "save_session now name st fs =
     (let payload = JObj [
            (''created_at'', JStr (now @ ''Z'')),
            (''persistent_context'', get st ''persistent_context'' (JStr '''')),
            (''messages'', get st ''messages'' (JList [])),
            (''nx_version'', get st ''nx_version'' (JStr '''')),
            (''uploaded_files_meta'', get st ''uploaded_files_meta'' (JList []))];
          path = session_path name
      in if writable fs path
         then Inr (fs\<lparr>entries := (entries fs)(path \<mapsto> Document payload)\<rparr>)
         else Inl OSError)"

definition load_session :: "string \<Rightarrow> filesystem \<Rightarrow> error + json option" where
  "load_session name fs =
     (let path = session_path name
      in case entries fs path of
           None \<Rightarrow> Inr None
         | Some f \<Rightarrow>
             if \<not> readable fs path then Inl OSError
             else (case f of
                     Document j \<Rightarrow> Inr (Some j)
                   | NotJson txt \<Rightarrow> Inl JSONDecodeError))"

text \<open>The key \<open>k\<close> of a loaded record: \<open>rec[k]\<close> where the record is a dict that has the key.\<close>

fun field :: "json \<Rightarrow> string \<Rightarrow> json option" where
  "field (JObj kvs) k = map_of kvs k"
| "field j k = None"

section \<open>The Load button\<close>

text \<open>What the script shows with \<open>st.success\<close>, \<open>st.error\<close> and \<open>st.info\<close>.\<close>

datatype notice =
    StSuccess string
  | StError string
  | StInfo string

text \<open>
  The handler of the Load button, on the selected entry \<open>sel\<close>. It returns the session
  state it leaves behind and either the exception that left the script or what was
  shown. The five assignments run in order, and only \<open>loaded.get\<close> can raise (when the
  document is not a dict), which the first right-hand side already does.
\<close>

definition load_button :: "string \<Rightarrow> filesystem \<Rightarrow> state \<Rightarrow> state \<times> (error + notice option)" where
  "load_button sel fs st =
     (if sel \<noteq> [] \<and> sel \<noteq> ''(select)'' then
        (case load_session sel fs of
           Inl e \<Rightarrow> (st, Inl e)
         | Inr None \<Rightarrow> (st, Inr (Some (StError ''The session could not be loaded.'')))
         | Inr (Some loaded) \<Rightarrow>
             if truthy loaded then
               (case loaded of
                  JObj kvs \<Rightarrow>
                    (st(''persistent_context'' \<mapsto> obj_get kvs ''persistent_context'' (JStr ''''),
                        ''messages'' \<mapsto> obj_get kvs ''messages'' (JList []),
                        ''nx_version'' \<mapsto> obj_get kvs ''nx_version'' (JStr ''NX 2212''),
                        ''uploaded_files_meta'' \<mapsto> obj_get kvs ''uploaded_files_meta'' (JList []),
                        ''current_session_name'' \<mapsto> JStr sel),
                     Inr (Some (StSuccess (''Session '' @ [CHR 0x27] @ sel @ [CHR 0x27]
                        @ '' loaded. (Files must be re-uploaded if required)''))))
                | _ \<Rightarrow> (st, Inl AttributeError))
             else (st, Inr (Some (StError ''The session could not be loaded.''))))
      else (st, Inr None))"

section \<open>Completion client\<close>

text \<open>
  One attempt is the call \<open>client.chat.completions.create(...)\<close> followed by reading
  \<open>resp.choices[0].message.content\<close>: it returns the content, or raises an exception
  that \<open>except Exception\<close> catches, or raises one it does not catch (a \<open>BaseException\<close>
  such as \<open>KeyboardInterrupt\<close>). An exception is represented by its \<open>str\<close>.
\<close>

datatype attempt =
    Returned string
  | RaisedException string
  | RaisedBaseException string

text \<open>The sidebar's settings, read by \<open>call_openai\<close> as globals, and the request sent.\<close>

record settings =
  model :: string
  temperature :: pyfloat
  max_tokens :: nat

record request = settings +
  messages :: "json list"

text \<open>
  The effects of \<open>call_openai\<close>: the requests sent so far, oldest first, and the
  durations slept, in milliseconds (\<open>time.sleep(1.2)\<close> is 1200).
\<close>

record world =
  calls :: "request list"
  sleeps :: "nat list"

text \<open>
  The hosted model is a parameter: \<open>client k rq\<close> is the outcome of the request \<open>rq\<close>
  when \<open>k\<close> requests were sent before it.
\<close>

type_synonym client = "nat \<Rightarrow> request \<Rightarrow> attempt"

text \<open>The loop \<open>for attempt in range(3)\<close>, over the values of \<open>attempt\<close> still to come.\<close>

fun attempts :: "client \<Rightarrow> request \<Rightarrow> nat list \<Rightarrow> string option \<Rightarrow> world
    \<Rightarrow> (error + string) \<times> world" where
  "attempts client rq [] last_err w =
     (Inl (RuntimeError (''Contact OpenAI: '' @ (case last_err of None \<Rightarrow> ''None'' | Some e \<Rightarrow> e))), w)"
| "attempts client rq (attempt # rest) last_err w =
     (let w1 = w\<lparr>calls := calls w @ [rq]\<rparr>
      in case client (length (calls w)) rq of
           Returned content \<Rightarrow> (Inr content, w1)
         | RaisedException e \<Rightarrow>
             attempts client rq rest (Some e) (w1\<lparr>sleeps := sleeps w1 @ [1200]\<rparr>)
         | RaisedBaseException e \<Rightarrow> (Inl (BaseException e), w1))"

definition request_of :: "settings \<Rightarrow> json list \<Rightarrow> request" where
  "request_of cfg msgs =
     \<lparr>model = model cfg, temperature = temperature cfg, max_tokens = max_tokens cfg,
      messages = msgs\<rparr>"

definition call_openai :: "client \<Rightarrow> settings \<Rightarrow> json list \<Rightarrow> world \<Rightarrow> (error + string) \<times> world" where
  "call_openai client cfg msgs w = attempts client (request_of cfg msgs) [0, 1, 2] None w"

section \<open>Code extractor\<close>

text \<open>
  \<open>re.search(r"```[a-zA-Z0-9_+-]*\n(.*?)```", text, flags=re.DOTALL)\<close>: the pattern is
  tried at every start position, leftmost first. At one position it reads three
  backticks, then a run of tag characters, as long as possible and then shorter
  (backtracking), then a newline, then the group: the shortest text, of any characters,
  that three backticks follow.
\<close>

definition fence :: string where
  "fence = ''```''"

definition newline :: char where
  "newline = CHR 0x0A"

definition is_tag_char :: "char \<Rightarrow> bool" where
  "is_tag_char c = (let n = cp c in
     (97 \<le> n \<and> n \<le> 122) \<or> (65 \<le> n \<and> n \<le> 90) \<or> (48 \<le> n \<and> n \<le> 57) \<or>
     c \<in> set ''_+-'')"

fun lazy_body :: "string \<Rightarrow> string option" where
  "lazy_body [] = None"
| "lazy_body (c # cs) =
     (if prefix fence (c # cs) then Some [] else map_option ((#) c) (lazy_body cs))"

definition after_tag :: "nat \<Rightarrow> string \<Rightarrow> string option" where
  "after_tag k rest =
     (case drop k rest of
        [] \<Rightarrow> None
      | c # body \<Rightarrow> if c = newline then lazy_body body else None)"

fun tag_backtrack :: "nat \<Rightarrow> string \<Rightarrow> string option" where
  "tag_backtrack 0 rest = after_tag 0 rest"
| "tag_backtrack (Suc k) rest =
     (case after_tag (Suc k) rest of
        Some body \<Rightarrow> Some body
      | None \<Rightarrow> tag_backtrack k rest)"

definition match_at :: "string \<Rightarrow> string option" where
  "match_at s =
     (if prefix fence s
      then (let rest = drop 3 s in tag_backtrack (length (takeWhile is_tag_char rest)) rest)
      else None)"

fun search :: "string \<Rightarrow> string option" where
  "search [] = match_at []"
| "search (c # cs) =
     (case match_at (c # cs) of
        Some body \<Rightarrow> Some body
      | None \<Rightarrow> search cs)"

definition extract_code_block :: "string \<Rightarrow> string option" where
  "extract_code_block text =
     (case search text of
        Some group1 \<Rightarrow> Some (strip group1)
      | None \<Rightarrow> None)"

text \<open>
  The text \<open>s\<close> starts with a fenced block of content \<open>body\<close>, as the pattern reads one:
  three backticks, tag characters, a newline, the content, and the first three
  backticks after the newline.
\<close>

definition block_at :: "string \<Rightarrow> string \<Rightarrow> bool" where
  "block_at s body \<longleftrightarrow>
     (\<exists>tag post. s = fence @ tag @ [newline] @ body @ fence @ post \<and>
        (\<forall>c\<in>set tag. is_tag_char c) \<and>
        (\<forall>j<length body. \<not> prefix fence (drop j (body @ fence @ post))))"

text \<open>
  Extraction as the specification words it, with no newline asked for after the opening
  fence: the first three backticks, the optional language tag, and the content up to
  the first closing fence, trimmed.
\<close>

definition match_as_stated :: "string \<Rightarrow> string option" where
  "match_as_stated s =
     (if prefix fence s then lazy_body (dropWhile is_tag_char (drop 3 s)) else None)"

fun search_as_stated :: "string \<Rightarrow> string option" where
  "search_as_stated [] = None"
| "search_as_stated (c # cs) =
     (case match_as_stated (c # cs) of
        Some body \<Rightarrow> Some body
      | None \<Rightarrow> search_as_stated cs)"

definition extract_as_stated :: "string \<Rightarrow> string option" where
  "extract_as_stated text = map_option strip (search_as_stated text)"

section \<open>Prompt builder\<close>

definition doc_url :: string where
  "doc_url = ''https://docs.sw.siemens.com/en-US/doc/209349590/PL20221117716122093.nxopen_python_ref''"

text \<open>The three pieces \<open>build_system_prompt\<close> concatenates, in the order of the source.\<close>

definition prompt_base :: "string \<Rightarrow> string" where
  "prompt_base nx_ver =
     ''You are an expert assistant in NXOpen (Python) for Siemens NX.\<newline>'' @
     ''Always use and respect the official NXOpen Python documentation when reasoning:\<newline>'' @
     doc_url @ ''\<newline>\<newline>'' @
     ''Act as a reviewer and improver of journals/code: clean, documented, robust, and ready for integration.\<newline>'' @
     ''Compatibility target: **'' @ nx_ver @
     ''**. Avoid using APIs or namespaces incompatible with that version.\<newline>\<newline>'' @
     ''remove any user movements inside of the code that got recorded in the journal.\<newline>''"

definition permanent_instructions :: "string \<Rightarrow> string" where
  "permanent_instructions ctx =
     ''PERMANENT INSTRUCTIONS TO FOLLOW:\<newline>'' @ ctx @ ''\<newline>\<newline>''"

definition response_format :: string where
  "response_format =
     ''Recommended response format:\<newline>'' @
     ''1) Brief summary of what the code does.\<newline>'' @
     ''2) List of issues/improvements.\<newline>'' @
     ''3) Proposed code (a single block with the complete code, including imports/using if applicable).\<newline>'' @
     ''4) Integration notes for NX.\<newline>''"

text \<open>
  \<open>st.session_state.get(...).strip()\<close> raises \<open>AttributeError\<close> on a value that is not a
  \<open>str\<close>.
\<close>

definition build_system_prompt :: "state \<Rightarrow> error + string" where
  "build_system_prompt st =
     (case get st ''persistent_context'' (JStr '''') of
        JStr c \<Rightarrow>
          (case get st ''nx_version'' (JStr '''') of
             JStr v \<Rightarrow>
               (let ctx = strip c;
                    nx_ver = strip v;
                    base = prompt_base nx_ver;
                    base = (if ctx \<noteq> [] then base @ permanent_instructions ctx else base)
                in Inr (base @ response_format))
           | _ \<Rightarrow> Inl AttributeError)
      | _ \<Rightarrow> Inl AttributeError)"

section \<open>Processing a turn\<close>

text \<open>\<open>sep.join(parts)\<close>.\<close>

fun join :: "string \<Rightarrow> string list \<Rightarrow> string" where
  "join sep [] = []"
| "join sep [x] = x"
| "join sep (x # y # ys) = x @ sep @ join sep (y # ys)"

text \<open>
  The code payload. \<open>files\<close> is the dict of the uploads, file name to text, in upload
  order. \<open>selected\<close> is \<open>None\<close> in the unified mode and the entry of the select box in the
  mode that processes one file.
\<close>

definition code_message :: "string option \<Rightarrow> (string \<times> string) list \<Rightarrow> error + string" where
  "code_message selected files =
     (case selected of
        Some sel \<Rightarrow>
          if sel \<noteq> [] then
            (case map_of files sel of
               None \<Rightarrow> Inl KeyError
             | Some code_text \<Rightarrow>
                 Inr (''Received code (file: '' @ sel @ ''):\<newline>```auto\<newline>'' @ code_text
                      @ ''\<newline>```''))
          else
            Inr (''Received code (multiple files unified):\<newline>```auto\<newline>''
                 @ join ''\<newline>\<newline>''
                     (map (\<lambda>(fname, code). ''// ==== ARCHIVO: '' @ fname @ '' ====\<newline>'' @ code) files)
                 @ ''\<newline>```'')
      | None \<Rightarrow>
          Inr (''Received code (multiple files unified):\<newline>```auto\<newline>''
               @ join ''\<newline>\<newline>''
                   (map (\<lambda>(fname, code). ''// ==== ARCHIVO: '' @ fname @ '' ====\<newline>'' @ code) files)
               @ ''\<newline>```''))"

text \<open>
  \<open>for m in st.session_state["messages"]\<close>: the items of the value iterated. A list
  gives its elements, a \<open>str\<close> its characters, a dict its keys; anything else is not
  iterable.
\<close>

fun iter_items :: "json \<Rightarrow> error + json list" where
  "iter_items (JList xs) = Inr xs"
| "iter_items (JStr s) = Inr (map (\<lambda>c. JStr [c]) s)"
| "iter_items (JObj kvs) = Inr (map (\<lambda>kv. JStr (fst kv)) kvs)"
| "iter_items j = Inl TypeError"

text \<open>\<open>m["role"]\<close>: \<open>KeyError\<close> on a dict without the key, \<open>TypeError\<close> on anything but a dict.\<close>

fun role_of :: "json \<Rightarrow> error + json" where
  "role_of (JObj kvs) = (case map_of kvs ''role'' of None \<Rightarrow> Inl KeyError | Some r \<Rightarrow> Inr r)"
| "role_of j = Inl TypeError"

text \<open>The loop over the history, appending to \<open>msgs\<close>.\<close>

fun replay :: "json list \<Rightarrow> json list \<Rightarrow> error + json list" where
  "replay [] msgs = Inr msgs"
| "replay (m # ms) msgs =
     (case role_of m of
        Inl e \<Rightarrow> Inl e
      | Inr r \<Rightarrow>
          replay ms (if r = JStr ''user'' \<or> r = JStr ''assistant'' then msgs @ [m] else msgs))"

definition final_instruction :: string where
  "final_instruction = ''Process the file(s) respecting the persistent context and the indicated NX version. Return the final code in a single block.''"

definition message :: "string \<Rightarrow> string \<Rightarrow> json" where
  "message role content = JObj [(''role'', JStr role), (''content'', JStr content)]"

definition assemble_messages :: "state \<Rightarrow> string \<Rightarrow> error + json list" where
  "assemble_messages st code_msg =
     (case build_system_prompt st of
        Inl e \<Rightarrow> Inl e
      | Inr prompt \<Rightarrow>
          (case st ''messages'' of
             None \<Rightarrow> Inl KeyError
           | Some history \<Rightarrow>
               (case iter_items history of
                  Inl e \<Rightarrow> Inl e
                | Inr items \<Rightarrow>
                    (case replay items [message ''system'' prompt] of
                       Inl e \<Rightarrow> Inl e
                     | Inr msgs \<Rightarrow>
                         Inr (msgs @ [message ''user'' code_msg]
                                   @ [message ''user'' final_instruction])))))"

text \<open>
  What a turn shows. The fixed labels are not modelled; the texts that depend on the
  run are. \<open>DownloadButton file_name data\<close> is \<open>st.download_button\<close>, with the text whose
  UTF-8 encoding is the data.
\<close>

datatype ui_event =
    ErrorApiKeyMissing
  | SuccessDone
  | ResultHeading
  | Markdown string
  | DownloadButton string string
  | InfoNoCodeBlock
  | ErrorOccurred string

text \<open>Lines 268 to 280: the extraction and the download offer.\<close>

definition offer_download :: "string option \<Rightarrow> string \<Rightarrow> ui_event" where
  "offer_download selected result =
     (case extract_code_block result of
        Some extracted \<Rightarrow>
          if extracted \<noteq> [] then
            (let out_name = ''improved_code.py'';
                 out_name = (case selected of
                    Some sel \<Rightarrow>
                      if sel \<noteq> [] \<and> endswith (lower sel) ''.py''
                      then ''improved_code.py'' else out_name
                  | None \<Rightarrow> out_name)
             in DownloadButton out_name extracted)
          else InfoNoCodeBlock
      | None \<Rightarrow> InfoNoCodeBlock)"

text \<open>
  The handler of the Clean and Improve button, which exists when \<open>files\<close> is not empty.
  \<open>ensure_client\<close> stops the script on an empty key. The exceptions raised while the
  message list is built leave the script; the \<open>RuntimeError\<close> of \<open>call_openai\<close> is caught
  and shown.
\<close>

definition clean_and_improve ::
    "string \<Rightarrow> client \<Rightarrow> settings \<Rightarrow> string option \<Rightarrow> (string \<times> string) list \<Rightarrow> state \<Rightarrow> world
     \<Rightarrow> (error + ui_event list) \<times> world" where
  "clean_and_improve api_key client cfg selected files st w =
     (if api_key = [] then (Inr [ErrorApiKeyMissing], w)
      else
        (case code_message selected files of
           Inl e \<Rightarrow> (Inl e, w)
         | Inr code_msg \<Rightarrow>
             (case assemble_messages st code_msg of
                Inl e \<Rightarrow> (Inl e, w)
              | Inr msgs \<Rightarrow>
                  (case call_openai client cfg msgs w of
                     (Inr result, w') \<Rightarrow>
                       (Inr [SuccessDone, ResultHeading, Markdown result,
                             offer_download selected result], w')
                   | (Inl (RuntimeError msg), w') \<Rightarrow>
                       (Inr [ErrorOccurred (''Ops! An error occurred: '' @ msg)], w')
                   | (Inl e, w') \<Rightarrow> (Inl e, w')))))"

text \<open>The message \<open>m\<close> is a dict whose \<open>role\<close> is the string \<open>r\<close>.\<close>

definition has_role :: "json \<Rightarrow> string \<Rightarrow> bool" where
  "has_role m r \<longleftrightarrow> field m ''role'' = Some (JStr r)"

text \<open>
  Fences read in pairs, as a reader of the text pairs them: the occurrences of three
  backticks from left to right, not overlapping, are in turn an opening fence, a closing
  fence, an opening fence, and so on. \<open>fence_scan i skip s\<close> lists the positions, \<open>s\<close>
  being the text from position \<open>i\<close> on and \<open>skip\<close> the characters of a fence still to pass.
\<close>

fun fence_scan :: "nat \<Rightarrow> nat \<Rightarrow> string \<Rightarrow> nat list" where
  "fence_scan i skip [] = []"
| "fence_scan i skip (c # cs) =
     (if 0 < skip then fence_scan (Suc i) (skip - 1) cs
      else if prefix fence (c # cs) then i # fence_scan (Suc i) 2 cs
      else fence_scan (Suc i) 0 cs)"

fun every_other :: "nat list \<Rightarrow> nat list" where
  "every_other [] = []"
| "every_other [x] = [x]"
| "every_other (x # y # xs) = x # every_other xs"

definition opening_fences :: "string \<Rightarrow> nat list" where
  "opening_fences s = every_other (fence_scan 0 0 s)"

text \<open>
  The class \<open>[A-Za-z0-9\-_ .]\<close> as the specification writes it, to compare with what
  \<open>session_path\<close> keeps.
\<close>

definition in_spec_class :: "char \<Rightarrow> bool" where
  "in_spec_class c = (let n = cp c in
     (65 \<le> n \<and> n \<le> 90) \<or> (97 \<le> n \<and> n \<le> 122) \<or> (48 \<le> n \<and> n \<le> 57) \<or>
     c \<in> set ''-_ .'')"

section \<open>Session store: sanitization\<close>

lemma keeps_ascii: "cp c < 128 \<Longrightarrow> keeps c = in_spec_class c"
  by (auto simp: keeps_def in_spec_class_def isalnum_def Let_def)

lemma filter_keeps_ascii:
  "\<forall>c\<in>set name. cp c < 128 \<Longrightarrow> filter keeps name = filter in_spec_class name"
  by (induction name) (simp_all add: keeps_ascii)

lemma session_path_eq: "session_path name = ''data/'' @ filter keeps name @ ''.json''"
  by (simp add: session_path_def DATA_DIR_def)

text \<open>
  C2, as stated, at the name \<open>caf\<eacute>\<close>: the last character is outside
  \<open>[A-Za-z0-9\-_ .]\<close>, and the stored file name still has it, because \<open>str.isalnum\<close>
  holds of it.
\<close>

theorem session_path_class_counterexample:
  "\<not> in_spec_class (CHR 0xE9) \<and>
   session_path (''caf'' @ [CHR 0xE9]) = ''data/caf'' @ [CHR 0xE9] @ ''.json'' \<and>
   session_path (''caf'' @ [CHR 0xE9])
     \<noteq> ''data/'' @ filter in_spec_class (''caf'' @ [CHR 0xE9]) @ ''.json''"
  by (simp add: session_path_eq keeps_def isalnum_def in_spec_class_def cp_def)

text \<open>
  C2, amended: the stored file name is the name with every character removed that is
  neither alphanumeric in Python's sense (\<open>str.isalnum\<close>, which holds of letters and
  digits beyond ASCII too) nor one of hyphen, underscore, space and dot. On ASCII
  characters the characters kept are exactly the class \<open>[A-Za-z0-9\-_ .]\<close>, so for an
  ASCII name the file name is the name with the characters outside the class removed.
  Two names with the same kept characters map to the same path, and so do two names
  that differ by one removed character.
\<close>

theorem session_path_sanitized:
  "session_path name = ''data/'' @ filter keeps name @ ''.json'' \<and>
   (keeps c \<longleftrightarrow> isalnum c \<or> c = CHR ''-'' \<or> c = CHR ''_'' \<or> c = CHR '' '' \<or> c = CHR ''.'') \<and>
   (cp c < 128 \<longrightarrow> keeps c = in_spec_class c) \<and>
   ((\<forall>c\<in>set name. cp c < 128) \<longrightarrow>
      session_path name = ''data/'' @ filter in_spec_class name @ ''.json'') \<and>
   (filter keeps a = filter keeps b \<longrightarrow> session_path a = session_path b) \<and>
   (\<not> keeps c \<longrightarrow> session_path (xs @ c # ys) = session_path (xs @ ys))"
proof -
  have 1: "session_path name = ''data/'' @ filter keeps name @ ''.json''"
    by (rule session_path_eq)
  have 2: "keeps c \<longleftrightarrow> isalnum c \<or> c = CHR ''-'' \<or> c = CHR ''_'' \<or> c = CHR '' '' \<or> c = CHR ''.''"
    by (auto simp: keeps_def)
  have 3: "cp c < 128 \<longrightarrow> keeps c = in_spec_class c"
    using keeps_ascii by blast
  have 4: "(\<forall>c\<in>set name. cp c < 128) \<longrightarrow>
      session_path name = ''data/'' @ filter in_spec_class name @ ''.json''"
    by (simp add: session_path_eq filter_keeps_ascii)
  have 5: "filter keeps a = filter keeps b \<longrightarrow> session_path a = session_path b"
    by (simp add: session_path_eq)
  have 6: "\<not> keeps c \<longrightarrow> session_path (xs @ c # ys) = session_path (xs @ ys)"
    by (simp add: session_path_eq)
  from 1 2 3 4 5 6 show ?thesis by blast
qed

theorem session_path_sanitized_witness:
  "session_path ''a/b:c'' = ''data/abc.json'' \<and>
   session_path ''a/b:c'' = ''data/'' @ filter in_spec_class ''a/b:c'' @ ''.json'' \<and>
   session_path ''a/b:c'' = session_path ''abc'' \<and>
   session_path (''ab'' @ CHR ''?'' # ''c'') = session_path (''ab'' @ ''c'')"
proof -
  have k: "\<not> keeps (CHR ''?'')" "cp (CHR ''/'') < 128"
    by (simp_all add: keeps_def isalnum_def cp_def)
  have a: "\<forall>c\<in>set ''a/b:c''. cp c < 128"
    by (simp add: cp_def)
  have f: "filter keeps ''a/b:c'' = filter keeps ''abc''"
    by (simp add: keeps_def isalnum_def cp_def)
  have i: "filter in_spec_class ''a/b:c'' = ''abc''"
    by (simp add: in_spec_class_def cp_def)
  show ?thesis
    using session_path_sanitized [of "''a/b:c''" "CHR ''?''" "''a/b:c''" "''abc''" "''ab''" "''c''"] k a f i
    by (simp add: session_path_eq keeps_def in_spec_class_def isalnum_def cp_def)
qed

section \<open>Session store: saving and loading\<close>

lemma save_session_writes:
  assumes "writable fs (session_path name)"
  shows "save_session now name st fs =
     Inr (fs\<lparr>entries := (entries fs)(session_path name \<mapsto> Document (JObj [
            (''created_at'', JStr (now @ ''Z'')),
            (''persistent_context'', get st ''persistent_context'' (JStr '''')),
            (''messages'', get st ''messages'' (JList [])),
            (''nx_version'', get st ''nx_version'' (JStr '''')),
            (''uploaded_files_meta'', get st ''uploaded_files_meta'' (JList []))]))\<rparr>)"
  using assms by (simp add: save_session_def)

lemma load_session_document:
  assumes "entries fs (session_path name) = Some (Document j)" and "readable fs (session_path name)"
  shows "load_session name fs = Inr (Some j)"
  using assms by (simp add: load_session_def)

lemma get_present: "st k = Some v \<Longrightarrow> get st k d = v"
  by (simp add: get_def)

text \<open>
  C1: where the store lets the session's file be written and read, \<open>save\<close> returns and
  the following \<open>load\<close> returns a record whose four fields are the state's (the default
  of \<open>state.get\<close> where the state has no such key), and whose \<open>created_at\<close> is the clock
  reading of this save followed by \<open>Z\<close>, whatever the store held before: after a second
  save it is the second reading.
\<close>

theorem save_load_roundtrip:
  assumes "writable fs (session_path name)" and "readable fs (session_path name)"
  shows "\<exists>fs' r. save_session now name st fs = Inr fs' \<and>
           load_session name fs' = Inr (Some r) \<and>
           field r ''persistent_context'' = Some (get st ''persistent_context'' (JStr '''')) \<and>
           field r ''messages'' = Some (get st ''messages'' (JList [])) \<and>
           field r ''nx_version'' = Some (get st ''nx_version'' (JStr '''')) \<and>
           field r ''uploaded_files_meta'' = Some (get st ''uploaded_files_meta'' (JList [])) \<and>
           (\<forall>k v. k \<in> {''persistent_context'', ''messages'', ''nx_version'', ''uploaded_files_meta''}
                  \<longrightarrow> st k = Some v \<longrightarrow> field r k = Some v) \<and>
           field r ''created_at'' = Some (JStr (now @ ''Z'')) \<and>
           (\<exists>fs'' r'. save_session later name st' fs' = Inr fs'' \<and>
                load_session name fs'' = Inr (Some r') \<and>
                field r' ''created_at'' = Some (JStr (later @ ''Z'')))"
proof -
  let ?p = "session_path name"
  let ?rec = "\<lambda>t s. JObj [
            (''created_at'', JStr (t @ ''Z'')),
            (''persistent_context'', get s ''persistent_context'' (JStr '''')),
            (''messages'', get s ''messages'' (JList [])),
            (''nx_version'', get s ''nx_version'' (JStr '''')),
            (''uploaded_files_meta'', get s ''uploaded_files_meta'' (JList []))]"
  let ?fs1 = "fs\<lparr>entries := (entries fs)(?p \<mapsto> Document (?rec now st))\<rparr>"
  let ?fs2 = "?fs1\<lparr>entries := (entries ?fs1)(?p \<mapsto> Document (?rec later st'))\<rparr>"
  have s1: "save_session now name st fs = Inr ?fs1"
    using assms(1) by (rule save_session_writes)
  have l1: "load_session name ?fs1 = Inr (Some (?rec now st))"
    using assms(2) by (intro load_session_document) simp_all
  have s2: "save_session later name st' ?fs1 = Inr ?fs2"
    using assms(1) by (intro save_session_writes) simp
  have l2: "load_session name ?fs2 = Inr (Some (?rec later st'))"
    using assms(2) by (intro load_session_document) simp_all
  have keys: "\<forall>k v. k \<in> {''persistent_context'', ''messages'', ''nx_version'', ''uploaded_files_meta''}
                  \<longrightarrow> st k = Some v \<longrightarrow> field (?rec now st) k = Some v"
    by (auto simp: get_present)
  have second: "\<exists>fs'' r'. save_session later name st' ?fs1 = Inr fs'' \<and>
                load_session name fs'' = Inr (Some r') \<and>
                field r' ''created_at'' = Some (JStr (later @ ''Z''))"
    using s2 l2 by (intro exI [of _ ?fs2] exI [of _ "?rec later st'"]) simp
  show ?thesis
    using s1 l1 keys second
    by (intro exI [of _ ?fs1] exI [of _ "?rec now st"]) simp
qed

theorem save_load_roundtrip_witness:
  "writable \<lparr>entries = Map.empty, readable = (\<lambda>p. True), writable = (\<lambda>p. True)\<rparr>
     (session_path ''sesion-nx'') \<and>
   readable \<lparr>entries = Map.empty, readable = (\<lambda>p. True), writable = (\<lambda>p. True)\<rparr>
     (session_path ''sesion-nx'') \<and>
   (\<exists>fs' r. save_session ''2025-01-01T10:00:00'' ''sesion-nx''
        [''persistent_context'' \<mapsto> JStr ''keep names in English'',
         ''messages'' \<mapsto> JList [JObj [(''role'', JStr ''user''), (''content'', JStr ''hi'')]],
         ''nx_version'' \<mapsto> JStr ''NX 2212'',
         ''uploaded_files_meta'' \<mapsto> JList [JObj [(''name'', JStr ''a.py''), (''chars'', JInt 10)]]]
        \<lparr>entries = Map.empty, readable = (\<lambda>p. True), writable = (\<lambda>p. True)\<rparr> = Inr fs' \<and>
      load_session ''sesion-nx'' fs' = Inr (Some r) \<and>
      field r ''persistent_context'' = Some (JStr ''keep names in English'') \<and>
      field r ''messages'' = Some (JList [JObj [(''role'', JStr ''user''), (''content'', JStr ''hi'')]]) \<and>
      field r ''nx_version'' = Some (JStr ''NX 2212'') \<and>
      field r ''uploaded_files_meta'' = Some (JList [JObj [(''name'', JStr ''a.py''), (''chars'', JInt 10)]]) \<and>
      field r ''created_at'' = Some (JStr ''2025-01-01T10:00:00Z''))"
proof -
  let ?fs = "\<lparr>entries = Map.empty, readable = (\<lambda>p. True), writable = (\<lambda>p. True)\<rparr> :: filesystem"
  let ?st = "[''persistent_context'' \<mapsto> JStr ''keep names in English'',
         ''messages'' \<mapsto> JList [JObj [(''role'', JStr ''user''), (''content'', JStr ''hi'')]],
         ''nx_version'' \<mapsto> JStr ''NX 2212'',
         ''uploaded_files_meta'' \<mapsto> JList [JObj [(''name'', JStr ''a.py''), (''chars'', JInt 10)]]] :: state"
  have w: "writable ?fs (session_path ''sesion-nx'')" and r: "readable ?fs (session_path ''sesion-nx'')"
    by simp_all
  from save_load_roundtrip [OF w r, of "''2025-01-01T10:00:00''" ?st "''later''" ?st]
  obtain fs' rc where
    "save_session ''2025-01-01T10:00:00'' ''sesion-nx'' ?st ?fs = Inr fs'"
    "load_session ''sesion-nx'' fs' = Inr (Some rc)"
    "field rc ''persistent_context'' = Some (get ?st ''persistent_context'' (JStr ''''))"
    "field rc ''messages'' = Some (get ?st ''messages'' (JList []))"
    "field rc ''nx_version'' = Some (get ?st ''nx_version'' (JStr ''''))"
    "field rc ''uploaded_files_meta'' = Some (get ?st ''uploaded_files_meta'' (JList []))"
    "field rc ''created_at'' = Some (JStr (''2025-01-01T10:00:00'' @ ''Z''))"
    by blast
  then show ?thesis
    using w r by (intro conjI exI [of _ fs'] exI [of _ rc]) (simp_all add: get_def)
qed

text \<open>
  C7: where the store has no file at the session's path, \<open>load\<close> returns the "not found"
  result \<open>None\<close>; it is a value, not an exception.
\<close>

theorem load_missing_session:
  "entries fs (session_path name) = None \<Longrightarrow> load_session name fs = Inr None"
  by (simp add: load_session_def)

theorem load_missing_session_witness:
  "entries \<lparr>entries = Map.empty, readable = (\<lambda>p. True), writable = (\<lambda>p. True)\<rparr>
      (session_path ''does-not-exist'') = None \<and>
   load_session ''does-not-exist''
      \<lparr>entries = Map.empty, readable = (\<lambda>p. True), writable = (\<lambda>p. True)\<rparr> = Inr None"
  using load_missing_session [of "\<lparr>entries = Map.empty, readable = (\<lambda>p. True), writable = (\<lambda>p. True)\<rparr>"
      "''does-not-exist''"]
  by simp

section \<open>The Load button: failed loads\<close>

lemma load_session_not_json:
  assumes "entries fs (session_path sel) = Some (NotJson txt)" and "readable fs (session_path sel)"
  shows "load_session sel fs = Inl JSONDecodeError"
  using assms by (simp add: load_session_def)

lemma load_button_raises:
  "load_session sel fs = Inl e \<Longrightarrow>
   load_button sel fs st = (if sel \<noteq> [] \<and> sel \<noteq> ''(select)'' then (st, Inl e) else (st, Inr None))"
  by (simp add: load_button_def)

lemma load_button_not_found:
  "load_session sel fs = Inr None \<Longrightarrow>
   load_button sel fs st =
     (if sel \<noteq> [] \<and> sel \<noteq> ''(select)''
      then (st, Inr (Some (StError ''The session could not be loaded.'')))
      else (st, Inr None))"
  by (simp add: load_button_def)

lemma load_button_changes:
  assumes "fst (load_button sel fs st) \<noteq> st"
  shows "\<exists>kvs. kvs \<noteq> [] \<and> load_session sel fs = Inr (Some (JObj kvs))"
proof (cases "load_session sel fs")
  case (Inl e)
  with assms show ?thesis by (auto simp: load_button_raises split: if_splits)
next
  case (Inr loaded)
  show ?thesis
  proof (cases loaded)
    case None
    with Inr assms show ?thesis by (auto simp: load_button_not_found split: if_splits)
  next
    case (Some j)
    with Inr assms show ?thesis
      by (cases j) (auto simp: load_button_def split: if_splits)
  qed
qed

text \<open>
  C8: when the load raises (the file is not valid JSON, or cannot be read), the Load
  button leaves the session state as it was and the exception leaves the handler, not
  caught; when the session is not found, the state is as it was and the error notice
  is shown. The state changes only when the load returned a non-empty dict, and then
  all five keys are assigned.
\<close>

theorem load_failure_keeps_state:
  "(load_session sel fs = Inl e \<longrightarrow> fst (load_button sel fs st) = st) \<and>
   (sel \<noteq> [] \<and> sel \<noteq> ''(select)'' \<and> load_session sel fs = Inl e \<longrightarrow>
      load_button sel fs st = (st, Inl e)) \<and>
   (entries fs (session_path sel) = Some (NotJson txt) \<and> readable fs (session_path sel) \<longrightarrow>
      load_session sel fs = Inl JSONDecodeError) \<and>
   (load_session sel fs = Inr None \<longrightarrow> fst (load_button sel fs st) = st) \<and>
   (sel \<noteq> [] \<and> sel \<noteq> ''(select)'' \<and> load_session sel fs = Inr None \<longrightarrow>
      load_button sel fs st = (st, Inr (Some (StError ''The session could not be loaded.'')))) \<and>
   (fst (load_button sel fs st) \<noteq> st \<longrightarrow>
      (\<exists>kvs. kvs \<noteq> [] \<and> load_session sel fs = Inr (Some (JObj kvs)) \<and>
         fst (load_button sel fs st) =
           st(''persistent_context'' \<mapsto> obj_get kvs ''persistent_context'' (JStr ''''),
              ''messages'' \<mapsto> obj_get kvs ''messages'' (JList []),
              ''nx_version'' \<mapsto> obj_get kvs ''nx_version'' (JStr ''NX 2212''),
              ''uploaded_files_meta'' \<mapsto> obj_get kvs ''uploaded_files_meta'' (JList []),
              ''current_session_name'' \<mapsto> JStr sel)))"
proof -
  have 1: "load_session sel fs = Inl e \<longrightarrow> fst (load_button sel fs st) = st"
    by (simp add: load_button_raises)
  have 2: "sel \<noteq> [] \<and> sel \<noteq> ''(select)'' \<and> load_session sel fs = Inl e \<longrightarrow>
      load_button sel fs st = (st, Inl e)"
    by (simp add: load_button_raises)
  have 3: "entries fs (session_path sel) = Some (NotJson txt) \<and> readable fs (session_path sel) \<longrightarrow>
      load_session sel fs = Inl JSONDecodeError"
    by (simp add: load_session_not_json)
  have 4: "load_session sel fs = Inr None \<longrightarrow> fst (load_button sel fs st) = st"
    by (simp add: load_button_not_found)
  have 5: "sel \<noteq> [] \<and> sel \<noteq> ''(select)'' \<and> load_session sel fs = Inr None \<longrightarrow>
      load_button sel fs st = (st, Inr (Some (StError ''The session could not be loaded.'')))"
    by (simp add: load_button_not_found)
  have 6: "fst (load_button sel fs st) \<noteq> st \<longrightarrow>
      (\<exists>kvs. kvs \<noteq> [] \<and> load_session sel fs = Inr (Some (JObj kvs)) \<and>
         fst (load_button sel fs st) =
           st(''persistent_context'' \<mapsto> obj_get kvs ''persistent_context'' (JStr ''''),
              ''messages'' \<mapsto> obj_get kvs ''messages'' (JList []),
              ''nx_version'' \<mapsto> obj_get kvs ''nx_version'' (JStr ''NX 2212''),
              ''uploaded_files_meta'' \<mapsto> obj_get kvs ''uploaded_files_meta'' (JList []),
              ''current_session_name'' \<mapsto> JStr sel))"
  proof
    assume ch: "fst (load_button sel fs st) \<noteq> st"
    then obtain kvs where k: "kvs \<noteq> []" "load_session sel fs = Inr (Some (JObj kvs))"
      using load_button_changes by blast
    from ch have "sel \<noteq> [] \<and> sel \<noteq> ''(select)''"
      by (auto simp: load_button_def split: if_splits)
    with k have "fst (load_button sel fs st) =
           st(''persistent_context'' \<mapsto> obj_get kvs ''persistent_context'' (JStr ''''),
              ''messages'' \<mapsto> obj_get kvs ''messages'' (JList []),
              ''nx_version'' \<mapsto> obj_get kvs ''nx_version'' (JStr ''NX 2212''),
              ''uploaded_files_meta'' \<mapsto> obj_get kvs ''uploaded_files_meta'' (JList []),
              ''current_session_name'' \<mapsto> JStr sel)"
      by (simp add: load_button_def)
    with k show "\<exists>kvs. kvs \<noteq> [] \<and> load_session sel fs = Inr (Some (JObj kvs)) \<and>
         fst (load_button sel fs st) =
           st(''persistent_context'' \<mapsto> obj_get kvs ''persistent_context'' (JStr ''''),
              ''messages'' \<mapsto> obj_get kvs ''messages'' (JList []),
              ''nx_version'' \<mapsto> obj_get kvs ''nx_version'' (JStr ''NX 2212''),
              ''uploaded_files_meta'' \<mapsto> obj_get kvs ''uploaded_files_meta'' (JList []),
              ''current_session_name'' \<mapsto> JStr sel)"
      by blast
  qed
  from 1 2 3 4 5 6 show ?thesis by blast
qed

theorem load_failure_keeps_state_witness:
  "entries \<lparr>entries = [''data/broken.json'' \<mapsto> NotJson ''{oops''],
          readable = (\<lambda>p. True), writable = (\<lambda>p. True)\<rparr> (session_path ''broken'')
     = Some (NotJson ''{oops'') \<and>
   load_session ''broken'' \<lparr>entries = [''data/broken.json'' \<mapsto> NotJson ''{oops''],
          readable = (\<lambda>p. True), writable = (\<lambda>p. True)\<rparr> = Inl JSONDecodeError \<and>
   load_button ''broken'' \<lparr>entries = [''data/broken.json'' \<mapsto> NotJson ''{oops''],
          readable = (\<lambda>p. True), writable = (\<lambda>p. True)\<rparr>
       [''nx_version'' \<mapsto> JStr ''NX 2212'', ''current_session_name'' \<mapsto> JStr ''sesion-nx'']
     = ([''nx_version'' \<mapsto> JStr ''NX 2212'', ''current_session_name'' \<mapsto> JStr ''sesion-nx''],
        Inl JSONDecodeError) \<and>
   load_session ''gone'' \<lparr>entries = [''data/broken.json'' \<mapsto> NotJson ''{oops''],
          readable = (\<lambda>p. True), writable = (\<lambda>p. True)\<rparr> = Inr None \<and>
   load_button ''gone'' \<lparr>entries = [''data/broken.json'' \<mapsto> NotJson ''{oops''],
          readable = (\<lambda>p. True), writable = (\<lambda>p. True)\<rparr>
       [''nx_version'' \<mapsto> JStr ''NX 2212'', ''current_session_name'' \<mapsto> JStr ''sesion-nx'']
     = ([''nx_version'' \<mapsto> JStr ''NX 2212'', ''current_session_name'' \<mapsto> JStr ''sesion-nx''],
        Inr (Some (StError ''The session could not be loaded.'')))"
proof -
  let ?fs = "\<lparr>entries = [''data/broken.json'' \<mapsto> NotJson ''{oops''],
          readable = (\<lambda>p. True), writable = (\<lambda>p. True)\<rparr> :: filesystem"
  let ?st = "[''nx_version'' \<mapsto> JStr ''NX 2212'', ''current_session_name'' \<mapsto> JStr ''sesion-nx''] :: state"
  have p: "session_path ''broken'' = ''data/broken.json''" "session_path ''gone'' = ''data/gone.json''"
    by (simp_all add: session_path_eq keeps_def isalnum_def cp_def)
  have f: "entries ?fs (session_path ''broken'') = Some (NotJson ''{oops'')"
      "readable ?fs (session_path ''broken'')"
    by (simp_all add: p)
  have g: "load_session ''gone'' ?fs = Inr None"
    by (simp add: load_session_def p)
  note b = load_failure_keeps_state [of "''broken''" ?fs JSONDecodeError ?st "''{oops''"]
  note n = load_failure_keeps_state [of "''gone''" ?fs JSONDecodeError ?st "''{oops''"]
  from b f have l: "load_session ''broken'' ?fs = Inl JSONDecodeError"
    by blast
  with b have "load_button ''broken'' ?fs ?st = (?st, Inl JSONDecodeError)"
    by simp
  moreover from n g have
    "load_button ''gone'' ?fs ?st = (?st, Inr (Some (StError ''The session could not be loaded.'')))"
    by simp
  ultimately show ?thesis
    using f l g by simp
qed

section \<open>Completion client: the retry loop\<close>

lemma attempts_third:
  assumes "client (length (calls w)) rq = RaisedException e1"
    and "client (Suc (length (calls w))) rq = RaisedException e2"
    and "client (Suc (Suc (length (calls w)))) rq = Returned txt"
  shows "attempts client rq [0, 1, 2] None w =
     (Inr txt, w\<lparr>calls := calls w @ [rq, rq, rq], sleeps := sleeps w @ [1200, 1200]\<rparr>)"
  using assms by simp

lemma attempts_exhausted:
  assumes "client (length (calls w)) rq = RaisedException e1"
    and "client (Suc (length (calls w))) rq = RaisedException e2"
    and "client (Suc (Suc (length (calls w)))) rq = RaisedException e3"
  shows "attempts client rq [0, 1, 2] None w =
     (Inl (RuntimeError (''Contact OpenAI: '' @ e3)),
      w\<lparr>calls := calls w @ [rq, rq, rq], sleeps := sleeps w @ [1200, 1200, 1200]\<rparr>)"
  using assms by simp

text \<open>
  The log of any run of the loop: \<open>n\<close> requests, all the same, and \<open>k\<close> sleeps of 1200
  ms, one after each of the first \<open>k\<close> attempts, which are the ones that raised an
  exception the loop catches.
\<close>

lemma attempts_log:
  "\<exists>n k. (as \<noteq> [] \<longrightarrow> 1 \<le> n) \<and> n \<le> length as \<and> k \<le> n \<and> n \<le> Suc k \<and>
     calls (snd (attempts client rq as le w)) = calls w @ replicate n rq \<and>
     sleeps (snd (attempts client rq as le w)) = sleeps w @ replicate k 1200 \<and>
     (\<forall>i<k. \<exists>e. client (length (calls w) + i) rq = RaisedException e) \<and>
     (k < n \<longrightarrow> (\<forall>e. client (length (calls w) + k) rq \<noteq> RaisedException e))"
proof (induction as arbitrary: le w)
  case Nil
  show ?case by (intro exI [of _ 0]) simp
next
  case (Cons a as)
  show ?case
  proof (cases "client (length (calls w)) rq")
    case (Returned c)
    then show ?thesis by (intro exI [of _ 1] exI [of _ 0]) simp
  next
    case (RaisedBaseException e)
    then show ?thesis by (intro exI [of _ 1] exI [of _ 0]) simp
  next
    case (RaisedException e)
    let ?w = "w\<lparr>calls := calls w @ [rq], sleeps := sleeps w @ [1200]\<rparr>"
    from Cons.IH [of "Some e" ?w] obtain n k where
      h: "n \<le> length as" "k \<le> n" "n \<le> Suc k"
         "calls (snd (attempts client rq as (Some e) ?w)) = calls ?w @ replicate n rq"
         "sleeps (snd (attempts client rq as (Some e) ?w)) = sleeps ?w @ replicate k 1200"
         "\<forall>i<k. \<exists>e. client (length (calls ?w) + i) rq = RaisedException e"
         "k < n \<longrightarrow> (\<forall>e. client (length (calls ?w) + k) rq \<noteq> RaisedException e)"
      by blast
    have a: "\<forall>i<Suc k. \<exists>e. client (length (calls w) + i) rq = RaisedException e"
    proof (intro allI impI)
      fix i assume "i < Suc k"
      show "\<exists>e. client (length (calls w) + i) rq = RaisedException e"
      proof (cases i)
        case 0 with RaisedException show ?thesis by simp
      next
        case (Suc j)
        with \<open>i < Suc k\<close> h(6) show ?thesis by simp
      qed
    qed
    show ?thesis
      using RaisedException h a
      by (intro exI [of _ "Suc n"] exI [of _ "Suc k"]) (simp add: replicate_app_Cons_same)
  qed
qed

lemma three_attempts: "length [0::nat, 1, 2] = 3"
  by simp

text \<open>
  C3: \<open>call_openai\<close> sends the same request at most 3 times and sleeps 1.2 s after each
  attempt that raised, and after nothing else. When the first two attempts raise and
  the third returns, it returns that content after exactly 3 requests and 2 sleeps.
  When all three raise, it raises \<open>RuntimeError\<close> whose message ends with the \<open>str\<close> of
  the third exception (after 3 requests and 3 sleeps).
\<close>

theorem call_openai_retry_ceiling:
  "(\<exists>n k. 1 \<le> n \<and> n \<le> 3 \<and> k \<le> n \<and> n \<le> Suc k \<and>
      calls (snd (call_openai client cfg msgs w)) = calls w @ replicate n (request_of cfg msgs) \<and>
      sleeps (snd (call_openai client cfg msgs w)) = sleeps w @ replicate k 1200 \<and>
      (\<forall>i<k. \<exists>e. client (length (calls w) + i) (request_of cfg msgs) = RaisedException e) \<and>
      (k < n \<longrightarrow> (\<forall>e. client (length (calls w) + k) (request_of cfg msgs) \<noteq> RaisedException e))) \<and>
   (client (length (calls w)) (request_of cfg msgs) = RaisedException e1 \<and>
    client (length (calls w) + 1) (request_of cfg msgs) = RaisedException e2 \<and>
    client (length (calls w) + 2) (request_of cfg msgs) = Returned txt \<longrightarrow>
      call_openai client cfg msgs w =
        (Inr txt, w\<lparr>calls := calls w @ replicate 3 (request_of cfg msgs),
                     sleeps := sleeps w @ [1200, 1200]\<rparr>)) \<and>
   (client (length (calls w)) (request_of cfg msgs) = RaisedException e1 \<and>
    client (length (calls w) + 1) (request_of cfg msgs) = RaisedException e2 \<and>
    client (length (calls w) + 2) (request_of cfg msgs) = RaisedException e3 \<longrightarrow>
      call_openai client cfg msgs w =
        (Inl (RuntimeError (''Contact OpenAI: '' @ e3)),
         w\<lparr>calls := calls w @ replicate 3 (request_of cfg msgs),
           sleeps := sleeps w @ [1200, 1200, 1200]\<rparr>))"
proof (intro conjI impI)
  from attempts_log [of "[0, 1, 2]" client "request_of cfg msgs" None w]
  obtain n k where h: "1 \<le> n" "n \<le> 3" "k \<le> n" "n \<le> Suc k"
      "calls (snd (attempts client (request_of cfg msgs) [0, 1, 2] None w))
         = calls w @ replicate n (request_of cfg msgs)"
      "sleeps (snd (attempts client (request_of cfg msgs) [0, 1, 2] None w))
         = sleeps w @ replicate k 1200"
      "\<forall>i<k. \<exists>e. client (length (calls w) + i) (request_of cfg msgs) = RaisedException e"
      "k < n \<longrightarrow> (\<forall>e. client (length (calls w) + k) (request_of cfg msgs) \<noteq> RaisedException e)"
    unfolding three_attempts by blast
  then show "\<exists>n k. 1 \<le> n \<and> n \<le> 3 \<and> k \<le> n \<and> n \<le> Suc k \<and>
      calls (snd (call_openai client cfg msgs w)) = calls w @ replicate n (request_of cfg msgs) \<and>
      sleeps (snd (call_openai client cfg msgs w)) = sleeps w @ replicate k 1200 \<and>
      (\<forall>i<k. \<exists>e. client (length (calls w) + i) (request_of cfg msgs) = RaisedException e) \<and>
      (k < n \<longrightarrow> (\<forall>e. client (length (calls w) + k) (request_of cfg msgs) \<noteq> RaisedException e))"
    unfolding call_openai_def by blast
next
  assume "client (length (calls w)) (request_of cfg msgs) = RaisedException e1 \<and>
    client (length (calls w) + 1) (request_of cfg msgs) = RaisedException e2 \<and>
    client (length (calls w) + 2) (request_of cfg msgs) = Returned txt"
  then show "call_openai client cfg msgs w =
        (Inr txt, w\<lparr>calls := calls w @ replicate 3 (request_of cfg msgs),
                     sleeps := sleeps w @ [1200, 1200]\<rparr>)"
    by (simp add: call_openai_def attempts_third numeral_3_eq_3)
next
  assume "client (length (calls w)) (request_of cfg msgs) = RaisedException e1 \<and>
    client (length (calls w) + 1) (request_of cfg msgs) = RaisedException e2 \<and>
    client (length (calls w) + 2) (request_of cfg msgs) = RaisedException e3"
  then show "call_openai client cfg msgs w =
        (Inl (RuntimeError (''Contact OpenAI: '' @ e3)),
         w\<lparr>calls := calls w @ replicate 3 (request_of cfg msgs),
           sleeps := sleeps w @ [1200, 1200, 1200]\<rparr>)"
    by (simp add: call_openai_def attempts_exhausted numeral_3_eq_3)
qed

theorem call_openai_retry_ceiling_witness:
  "call_openai (\<lambda>k rq. if k < 2 then RaisedException ''timed out'' else Returned ''done'')
      \<lparr>model = ''gpt-4o-mini'', temperature = Finite 1 (- 1), max_tokens = 1600\<rparr>
      [JObj [(''role'', JStr ''user''), (''content'', JStr ''hi'')]]
      \<lparr>calls = [], sleeps = []\<rparr>
    = (Inr ''done'',
       \<lparr>calls = replicate 3 (request_of
            \<lparr>model = ''gpt-4o-mini'', temperature = Finite 1 (- 1), max_tokens = 1600\<rparr>
            [JObj [(''role'', JStr ''user''), (''content'', JStr ''hi'')]]),
        sleeps = [1200, 1200]\<rparr>) \<and>
   call_openai (\<lambda>k rq. RaisedException (if k = 0 then ''first'' else if k = 1 then ''second'' else ''third''))
      \<lparr>model = ''gpt-4o-mini'', temperature = Finite 1 (- 1), max_tokens = 1600\<rparr>
      [JObj [(''role'', JStr ''user''), (''content'', JStr ''hi'')]]
      \<lparr>calls = [], sleeps = []\<rparr>
    = (Inl (RuntimeError ''Contact OpenAI: third''),
       \<lparr>calls = replicate 3 (request_of
            \<lparr>model = ''gpt-4o-mini'', temperature = Finite 1 (- 1), max_tokens = 1600\<rparr>
            [JObj [(''role'', JStr ''user''), (''content'', JStr ''hi'')]]),
        sleeps = [1200, 1200, 1200]\<rparr>)"
proof -
  let ?cfg = "\<lparr>model = ''gpt-4o-mini'', temperature = Finite 1 (- 1), max_tokens = 1600\<rparr>"
  let ?msgs = "[JObj [(''role'', JStr ''user''), (''content'', JStr ''hi'')]]"
  let ?w = "\<lparr>calls = [], sleeps = []\<rparr>"
  let ?c1 = "\<lambda>(k::nat) (rq::request). if k < 2 then RaisedException ''timed out'' else Returned ''done''"
  let ?c2 = "\<lambda>(k::nat) (rq::request).
      RaisedException (if k = 0 then ''first'' else if k = 1 then ''second'' else ''third'')"
  have a: "?c1 (length (calls ?w)) (request_of ?cfg ?msgs) = RaisedException ''timed out'' \<and>
      ?c1 (length (calls ?w) + 1) (request_of ?cfg ?msgs) = RaisedException ''timed out'' \<and>
      ?c1 (length (calls ?w) + 2) (request_of ?cfg ?msgs) = Returned ''done''"
    by simp
  have b: "?c2 (length (calls ?w)) (request_of ?cfg ?msgs) = RaisedException ''first'' \<and>
      ?c2 (length (calls ?w) + 1) (request_of ?cfg ?msgs) = RaisedException ''second'' \<and>
      ?c2 (length (calls ?w) + 2) (request_of ?cfg ?msgs) = RaisedException ''third''"
    by simp
  from a call_openai_retry_ceiling [of ?c1 ?cfg ?msgs ?w "''timed out''" "''timed out''" "''done''"]
  have 1: "call_openai ?c1 ?cfg ?msgs ?w =
        (Inr ''done'', ?w\<lparr>calls := calls ?w @ replicate 3 (request_of ?cfg ?msgs),
                     sleeps := sleeps ?w @ [1200, 1200]\<rparr>)"
    by blast
  from b call_openai_retry_ceiling [of ?c2 ?cfg ?msgs ?w "''first''" "''second''" _ "''third''"]
  have 2: "call_openai ?c2 ?cfg ?msgs ?w =
        (Inl (RuntimeError (''Contact OpenAI: '' @ ''third'')),
         ?w\<lparr>calls := calls ?w @ replicate 3 (request_of ?cfg ?msgs),
           sleeps := sleeps ?w @ [1200, 1200, 1200]\<rparr>)"
    by blast
  from 1 2 show ?thesis by simp
qed

section \<open>Code extractor: what the pattern matches\<close>

lemma fence_length: "length fence = 3"
  by (simp add: fence_def)

lemma newline_not_tag: "\<not> is_tag_char newline"
  by (simp add: is_tag_char_def newline_def cp_def)

lemma lazy_body_fence: "lazy_body (fence @ post) = Some []"
  by (simp add: fence_def)

lemma lazy_body_Some:
  "lazy_body s = Some b \<Longrightarrow>
     \<exists>post. s = b @ fence @ post \<and> (\<forall>j<length b. \<not> prefix fence (drop j s))"
proof (induction s arbitrary: b)
  case Nil
  then show ?case by simp
next
  case (Cons c cs)
  show ?case
  proof (cases "prefix fence (c # cs)")
    case True
    with Cons.prems have "b = []" by simp
    with True show ?thesis by (auto simp: prefix_def)
  next
    case False
    with Cons.prems obtain b' where b: "lazy_body cs = Some b'" "b = c # b'"
      by auto
    from Cons.IH [OF b(1)] obtain post where
      p: "cs = b' @ fence @ post" "\<forall>j<length b'. \<not> prefix fence (drop j cs)"
      by blast
    have "\<forall>j<length b. \<not> prefix fence (drop j (c # cs))"
    proof (intro allI impI)
      fix j assume "j < length b"
      then show "\<not> prefix fence (drop j (c # cs))"
        using False p(2) b(2) by (cases j) simp_all
    qed
    with p(1) b(2) show ?thesis by auto
  qed
qed

lemma lazy_body_first:
  "(\<forall>j<length b. \<not> prefix fence (drop j (b @ fence @ post))) \<Longrightarrow>
     lazy_body (b @ fence @ post) = Some b"
proof (induction b)
  case Nil
  show ?case by (simp add: lazy_body_fence)
next
  case (Cons c b)
  from Cons.prems have 0: "\<not> prefix fence (c # b @ fence @ post)"
    by force
  have "\<forall>j<length b. \<not> prefix fence (drop j (b @ fence @ post))"
  proof (intro allI impI)
    fix j assume "j < length b"
    then have "Suc j < length (c # b)" by simp
    with Cons.prems have "\<not> prefix fence (drop (Suc j) ((c # b) @ fence @ post))"
      by blast
    then show "\<not> prefix fence (drop j (b @ fence @ post))" by simp
  qed
  with Cons.IH have "lazy_body (b @ fence @ post) = Some b" by blast
  with 0 show ?case by simp
qed

lemma tag_backtrack_Some:
  "tag_backtrack n rest = Some b \<Longrightarrow> \<exists>k\<le>n. after_tag k rest = Some b"
proof (induction n)
  case 0
  then show ?case by simp
next
  case (Suc n)
  show ?case
  proof (cases "after_tag (Suc n) rest")
    case None
    with Suc.prems have "tag_backtrack n rest = Some b" by simp
    with Suc.IH obtain k where "k \<le> n" "after_tag k rest = Some b" by blast
    then show ?thesis by (intro exI [of _ k]) simp
  next
    case (Some b')
    with Suc.prems show ?thesis by (intro exI [of _ "Suc n"]) simp
  qed
qed

lemma tag_backtrack_longest:
  "after_tag n rest = Some b \<Longrightarrow> tag_backtrack n rest = Some b"
  by (cases n) simp_all

lemma after_tag_Some:
  "after_tag k rest = Some b \<Longrightarrow>
     \<exists>body. rest = take k rest @ newline # body \<and> lazy_body body = Some b"
proof -
  assume a: "after_tag k rest = Some b"
  then obtain c body where d: "drop k rest = c # body"
    by (cases "drop k rest") (simp_all add: after_tag_def)
  with a have "c = newline" "lazy_body body = Some b"
    by (simp_all add: after_tag_def split: if_splits)
  moreover have "rest = take k rest @ drop k rest" by simp
  ultimately show ?thesis using d by metis
qed

lemma take_run_tag:
  assumes "k \<le> length (takeWhile is_tag_char rest)"
  shows "\<forall>c\<in>set (take k rest). is_tag_char c"
proof -
  have "take k rest = take k (takeWhile is_tag_char rest)"
  proof -
    have "rest = takeWhile is_tag_char rest @ dropWhile is_tag_char rest" by simp
    then have "take k rest = take k (takeWhile is_tag_char rest @ dropWhile is_tag_char rest)"
      by simp
    also have "\<dots> = take k (takeWhile is_tag_char rest)"
      using assms by (simp del: takeWhile_dropWhile_id)
    finally show ?thesis .
  qed
  then have "set (take k rest) \<subseteq> set (takeWhile is_tag_char rest)"
    by (metis set_take_subset)
  then show ?thesis by (auto dest: set_takeWhileD)
qed

lemma match_at_block: "match_at s = Some b \<longleftrightarrow> block_at s b"
proof
  assume m: "match_at s = Some b"
  then have pf: "prefix fence s"
    by (simp add: match_at_def split: if_splits)
  then have s: "s = fence @ drop 3 s"
    by (auto simp: prefix_def fence_length)
  let ?rest = "drop 3 s"
  from m pf have "tag_backtrack (length (takeWhile is_tag_char ?rest)) ?rest = Some b"
    by (simp add: match_at_def Let_def)
  then obtain k where k: "k \<le> length (takeWhile is_tag_char ?rest)" "after_tag k ?rest = Some b"
    using tag_backtrack_Some by blast
  from after_tag_Some [OF k(2)] obtain body where
    body: "?rest = take k ?rest @ newline # body" "lazy_body body = Some b"
    by blast
  from lazy_body_Some [OF body(2)] obtain post where
    post: "body = b @ fence @ post" "\<forall>j<length b. \<not> prefix fence (drop j body)"
    by blast
  have "s = fence @ take k ?rest @ [newline] @ b @ fence @ post"
    using s body(1) post(1) by (metis append_Cons append_Nil)
  moreover have "\<forall>c\<in>set (take k ?rest). is_tag_char c"
    using k(1) by (rule take_run_tag)
  ultimately show "block_at s b"
    unfolding block_at_def using post by blast
next
  assume "block_at s b"
  then obtain tag post where
    s: "s = fence @ tag @ [newline] @ b @ fence @ post" and
    t: "\<forall>c\<in>set tag. is_tag_char c" and
    f: "\<forall>j<length b. \<not> prefix fence (drop j (b @ fence @ post))"
    unfolding block_at_def by blast
  have pf: "prefix fence s" using s by simp
  have rest: "drop 3 s = tag @ newline # b @ fence @ post"
    using s by (simp add: fence_length)
  have run: "takeWhile is_tag_char (drop 3 s) = tag"
    using t by (simp add: rest newline_not_tag)
  have "after_tag (length tag) (drop 3 s) = Some b"
    using lazy_body_first [OF f] by (simp add: after_tag_def rest)
  then have "tag_backtrack (length tag) (drop 3 s) = Some b"
    by (rule tag_backtrack_longest)
  with pf run show "match_at s = Some b"
    by (simp add: match_at_def Let_def)
qed

lemma match_at_Nil: "match_at [] = None"
  by (simp add: match_at_def fence_def)

lemma search_Some:
  "search text = Some b \<longleftrightarrow>
     (\<exists>i\<le>length text. match_at (drop i text) = Some b \<and> (\<forall>j<i. match_at (drop j text) = None))"
proof (induction "text")
  case Nil
  show ?case by (simp add: match_at_Nil)
next
  case (Cons c cs)
  show ?case
  proof (cases "match_at (c # cs)")
    case (Some b0)
    have "(\<exists>i\<le>length (c # cs). match_at (drop i (c # cs)) = Some b \<and>
            (\<forall>j<i. match_at (drop j (c # cs)) = None)) \<longleftrightarrow> b0 = b"
    proof
      assume "\<exists>i\<le>length (c # cs). match_at (drop i (c # cs)) = Some b \<and>
            (\<forall>j<i. match_at (drop j (c # cs)) = None)"
      then obtain i where i: "match_at (drop i (c # cs)) = Some b"
          "\<forall>j<i. match_at (drop j (c # cs)) = None" by blast
      show "b0 = b"
      proof (cases i)
        case 0 with i(1) Some show ?thesis by simp
      next
        case (Suc i')
        with i(2) have "match_at (drop 0 (c # cs)) = None" by blast
        with Some show ?thesis by simp
      qed
    next
      assume "b0 = b"
      with Some show "\<exists>i\<le>length (c # cs). match_at (drop i (c # cs)) = Some b \<and>
            (\<forall>j<i. match_at (drop j (c # cs)) = None)"
        by (intro exI [of _ 0]) simp
    qed
    with Some show ?thesis by simp
  next
    case None
    have "(\<exists>i\<le>length (c # cs). match_at (drop i (c # cs)) = Some b \<and>
            (\<forall>j<i. match_at (drop j (c # cs)) = None)) \<longleftrightarrow>
          (\<exists>i\<le>length cs. match_at (drop i cs) = Some b \<and> (\<forall>j<i. match_at (drop j cs) = None))"
    proof
      assume "\<exists>i\<le>length (c # cs). match_at (drop i (c # cs)) = Some b \<and>
            (\<forall>j<i. match_at (drop j (c # cs)) = None)"
      then obtain i where i: "i \<le> length (c # cs)" "match_at (drop i (c # cs)) = Some b"
          "\<forall>j<i. match_at (drop j (c # cs)) = None" by blast
      from i(2) None obtain i' where s: "i = Suc i'" by (cases i) simp_all
      have "\<forall>j<i'. match_at (drop j cs) = None"
      proof (intro allI impI)
        fix j assume "j < i'"
        then have "Suc j < i" using s by simp
        with i(3) have "match_at (drop (Suc j) (c # cs)) = None" by blast
        then show "match_at (drop j cs) = None" by simp
      qed
      with i(1,2) s show "\<exists>i\<le>length cs. match_at (drop i cs) = Some b \<and>
          (\<forall>j<i. match_at (drop j cs) = None)"
        by (intro exI [of _ i']) simp
    next
      assume "\<exists>i\<le>length cs. match_at (drop i cs) = Some b \<and> (\<forall>j<i. match_at (drop j cs) = None)"
      then obtain i where i: "i \<le> length cs" "match_at (drop i cs) = Some b"
          "\<forall>j<i. match_at (drop j cs) = None" by blast
      have "\<forall>j<Suc i. match_at (drop j (c # cs)) = None"
      proof (intro allI impI)
        fix j assume "j < Suc i"
        then show "match_at (drop j (c # cs)) = None"
          using None i(3) by (cases j) simp_all
      qed
      with i(1,2) show "\<exists>i\<le>length (c # cs). match_at (drop i (c # cs)) = Some b \<and>
            (\<forall>j<i. match_at (drop j (c # cs)) = None)"
        by (intro exI [of _ "Suc i"]) simp
    qed
    with None Cons.IH show ?thesis by simp
  qed
qed

lemma search_None: "search text = None \<longleftrightarrow> (\<forall>i. match_at (drop i text) = None)"
proof (induction "text")
  case Nil
  show ?case by (simp add: match_at_Nil)
next
  case (Cons c cs)
  show ?case
  proof (cases "match_at (c # cs)")
    case (Some b0)
    then have "\<not> (\<forall>i. match_at (drop i (c # cs)) = None)"
      by (metis drop0 option.distinct(1))
    with Some show ?thesis by simp
  next
    case None
    have "(\<forall>i. match_at (drop i (c # cs)) = None) \<longleftrightarrow> (\<forall>i. match_at (drop i cs) = None)"
    proof
      assume a: "\<forall>i. match_at (drop i (c # cs)) = None"
      show "\<forall>i. match_at (drop i cs) = None"
      proof
        fix i from a have "match_at (drop (Suc i) (c # cs)) = None" by blast
        then show "match_at (drop i cs) = None" by simp
      qed
    next
      assume a: "\<forall>i. match_at (drop i cs) = None"
      show "\<forall>i. match_at (drop i (c # cs)) = None"
      proof
        fix i show "match_at (drop i (c # cs)) = None"
          using None a by (cases i) simp_all
      qed
    qed
    with None Cons.IH show ?thesis by simp
  qed
qed

lemma strip_trims:
  "\<exists>l r. s = l @ strip s @ r \<and> (\<forall>c\<in>set l. isspace c) \<and> (\<forall>c\<in>set r. isspace c) \<and>
     (strip s \<noteq> [] \<longrightarrow> \<not> isspace (hd (strip s)) \<and> \<not> isspace (last (strip s)))"
proof -
  let ?l = "takeWhile isspace s"
  let ?d = "dropWhile isspace s"
  let ?r = "rev (takeWhile isspace (rev ?d))"
  have "rev ?d = takeWhile isspace (rev ?d) @ dropWhile isspace (rev ?d)"
    by simp
  then have "rev (rev ?d) = rev (takeWhile isspace (rev ?d) @ dropWhile isspace (rev ?d))"
    by simp
  then have d: "?d = strip s @ ?r"
    by (simp add: strip_def del: takeWhile_dropWhile_id)
  have s: "s = ?l @ strip s @ ?r"
    using d by (metis takeWhile_dropWhile_id)
  have l: "\<forall>c\<in>set ?l. isspace c"
    by (auto dest: set_takeWhileD)
  have r: "\<forall>c\<in>set ?r. isspace c"
    by (auto dest: set_takeWhileD)
  have e: "strip s \<noteq> [] \<longrightarrow> \<not> isspace (hd (strip s)) \<and> \<not> isspace (last (strip s))"
  proof
    assume n: "strip s \<noteq> []"
    then have dn: "?d \<noteq> []" using d by (metis Nil_is_append_conv)
    then have "\<not> isspace (hd ?d)" by (rule hd_dropWhile)
    moreover have "hd ?d = hd (strip s)" using d n by (metis hd_append2)
    moreover have "dropWhile isspace (rev ?d) \<noteq> []" using n by (simp add: strip_def)
    then have "\<not> isspace (hd (dropWhile isspace (rev ?d)))" by (rule hd_dropWhile)
    then have "\<not> isspace (last (strip s))"
      using n by (simp add: strip_def last_rev)
    ultimately show "\<not> isspace (hd (strip s)) \<and> \<not> isspace (last (strip s))" by simp
  qed
  from s l r e show ?thesis by blast
qed

lemma extract_Some:
  "extract_code_block resp = Some r \<longleftrightarrow> (\<exists>b. search resp = Some b \<and> r = strip b)"
  by (auto simp: extract_code_block_def split: option.splits)

lemma extract_None: "extract_code_block resp = None \<longleftrightarrow> search resp = None"
  by (simp add: extract_code_block_def split: option.splits)

lemma no_match_no_block: "match_at s = None \<longleftrightarrow> (\<forall>b. \<not> block_at s b)"
  using match_at_block [of s] by (cases "match_at s") auto

lemma search_first_block:
  "search resp = Some body \<longleftrightarrow>
     (\<exists>i\<le>length resp. block_at (drop i resp) body \<and> (\<forall>j<i. \<forall>b. \<not> block_at (drop j resp) b))"
  by (simp add: search_Some match_at_block no_match_no_block)

lemma search_no_block: "search resp = None \<longleftrightarrow> (\<forall>i b. \<not> block_at (drop i resp) b)"
  by (simp add: search_None no_match_no_block)

lemma block_at_opening:
  assumes "block_at s b"
  shows "prefix fence s \<and> prefix [newline] (dropWhile is_tag_char (drop 3 s)) \<and> newline \<in> set s"
proof -
  from assms obtain tag post where
    s: "s = fence @ tag @ [newline] @ b @ fence @ post" and
    t: "\<forall>c\<in>set tag. is_tag_char c"
    unfolding block_at_def by blast
  have "drop 3 s = tag @ newline # b @ fence @ post"
    using s by (simp add: fence_length)
  then have "dropWhile is_tag_char (drop 3 s) = newline # b @ fence @ post"
    using t by (simp add: newline_not_tag)
  then show ?thesis using s by simp
qed

text \<open>
  C4, as stated, at the single-line span \<open>```x = 1```\<close>: read as the specification
  words it (three backticks, optional tag, content up to the closing fence), the text
  holds a fenced block, and \<open>extract_code_block\<close> returns \<open>None\<close>, since no newline
  follows the opening fence.
\<close>

theorem extract_as_stated_counterexample:
  "extract_as_stated ''```x = 1```'' = Some ''= 1'' \<and> extract_code_block ''```x = 1```'' = None"
  by (simp add: extract_as_stated_def match_as_stated_def extract_code_block_def match_at_def
      fence_def after_tag_def newline_def is_tag_char_def cp_def strip_def isspace_def)

text \<open>
  C4, amended: a fenced block is three backticks, a run of tag characters
  \<open>[a-zA-Z0-9_+-]\<close>, a newline, the content, and the first three backticks after that
  newline. \<open>extract_code_block\<close> returns the content, trimmed, of the block at the
  leftmost position of the text where one starts, whatever follows it (further blocks
  included), and \<open>None\<close> exactly when no position starts one. Trimming takes away the
  whitespace at both ends of the content and nothing else.
\<close>

theorem extract_code_block_first_block:
  "(i \<le> length resp \<and> block_at (drop i resp) body \<and> (\<forall>j<i. \<forall>b. \<not> block_at (drop j resp) b) \<longrightarrow>
      extract_code_block resp = Some (strip body)) \<and>
   (extract_code_block resp = Some r \<longrightarrow>
      (\<exists>i body. i \<le> length resp \<and> block_at (drop i resp) body \<and>
         (\<forall>j<i. \<forall>b. \<not> block_at (drop j resp) b) \<and> r = strip body)) \<and>
   (extract_code_block resp = None \<longleftrightarrow> (\<forall>i b. \<not> block_at (drop i resp) b)) \<and>
   (\<exists>l r. body = l @ strip body @ r \<and> (\<forall>c\<in>set l. isspace c) \<and> (\<forall>c\<in>set r. isspace c) \<and>
      (strip body \<noteq> [] \<longrightarrow> \<not> isspace (hd (strip body)) \<and> \<not> isspace (last (strip body)))) \<and>
   extract_code_block ''```python\<newline>print(1)\<newline>```'' = Some ''print(1)'' \<and>
   extract_code_block ''a ```py\<newline> one \<newline>``` b ```\<newline>two```'' = Some ''one''"
proof -
  have 0: "\<exists>l r. body = l @ strip body @ r \<and> (\<forall>c\<in>set l. isspace c) \<and> (\<forall>c\<in>set r. isspace c) \<and>
      (strip body \<noteq> [] \<longrightarrow> \<not> isspace (hd (strip body)) \<and> \<not> isspace (last (strip body)))"
    by (rule strip_trims)
  have 1: "i \<le> length resp \<and> block_at (drop i resp) body \<and> (\<forall>j<i. \<forall>b. \<not> block_at (drop j resp) b) \<longrightarrow>
      extract_code_block resp = Some (strip body)"
    using search_first_block [of resp body] by (auto simp: extract_Some)
  have 2: "extract_code_block resp = Some r \<longrightarrow>
      (\<exists>i body. i \<le> length resp \<and> block_at (drop i resp) body \<and>
         (\<forall>j<i. \<forall>b. \<not> block_at (drop j resp) b) \<and> r = strip body)"
    using search_first_block [of resp] by (auto simp: extract_Some)
  have 3: "extract_code_block resp = None \<longleftrightarrow> (\<forall>i b. \<not> block_at (drop i resp) b)"
    by (simp add: extract_None search_no_block)
  have 4: "extract_code_block ''```python\<newline>print(1)\<newline>```'' = Some ''print(1)''"
    by (simp add: extract_code_block_def match_at_def fence_def after_tag_def newline_def
        is_tag_char_def cp_def strip_def isspace_def)
  have 5: "extract_code_block ''a ```py\<newline> one \<newline>``` b ```\<newline>two```'' = Some ''one''"
    by (simp add: extract_code_block_def match_at_def fence_def after_tag_def newline_def
        is_tag_char_def cp_def strip_def isspace_def)
  from 0 1 2 3 4 5 show ?thesis by blast
qed

theorem extract_code_block_first_block_witness:
  "0 \<le> length ''```python\<newline>print(1)\<newline>```'' \<and>
   block_at (drop 0 ''```python\<newline>print(1)\<newline>```'') ''print(1)\<newline>'' \<and>
   extract_code_block ''```python\<newline>print(1)\<newline>```'' = Some (strip ''print(1)\<newline>'') \<and>
   strip ''print(1)\<newline>'' = ''print(1)''"
proof -
  let ?t = "''```python\<newline>print(1)\<newline>```''"
  have "match_at ?t = Some ''print(1)\<newline>''"
    by (simp add: match_at_def fence_def after_tag_def newline_def is_tag_char_def cp_def)
  then have b: "block_at (drop 0 ?t) ''print(1)\<newline>''"
    by (simp add: match_at_block)
  have s: "strip ''print(1)\<newline>'' = ''print(1)''"
    by (simp add: strip_def isspace_def cp_def)
  from b extract_code_block_first_block [of 0 ?t "''print(1)\<newline>''"]
  have "extract_code_block ?t = Some (strip ''print(1)\<newline>'')"
    by simp
  with b s show ?thesis by simp
qed

text \<open>
  C10, as stated, at the text \<open>```x = 1```\<close>, newline, \<open>foo```\<close>: its fences stand at
  positions 0, 8 and 15, the opening ones at 0 and 15, and neither of these is followed,
  after its tag, by a newline. The fence at 8, which closes the span, is: the pattern
  starts there, and \<open>extract_code_block\<close> returns \<open>foo\<close>.
\<close>

theorem opening_fence_counterexample:
  "fence_scan 0 0 ''```x = 1```\<newline>foo```'' = [0, 8, 15] \<and>
   opening_fences ''```x = 1```\<newline>foo```'' = [0, 15] \<and>
   \<not> prefix [newline] (dropWhile is_tag_char (drop (0 + 3) ''```x = 1```\<newline>foo```'')) \<and>
   \<not> prefix [newline] (dropWhile is_tag_char (drop (15 + 3) ''```x = 1```\<newline>foo```'')) \<and>
   extract_code_block ''```x = 1```\<newline>foo```'' = Some ''foo''"
proof -
  have s: "fence_scan 0 0 ''```x = 1```\<newline>foo```'' = [0, 8, 15]"
    by (simp add: fence_def)
  then have o: "opening_fences ''```x = 1```\<newline>foo```'' = [0, 15]"
    by (simp add: opening_fences_def)
  have a: "\<not> prefix [newline] (dropWhile is_tag_char (drop (0 + 3) ''```x = 1```\<newline>foo```''))"
    by (simp add: newline_def is_tag_char_def cp_def)
  have b: "\<not> prefix [newline] (dropWhile is_tag_char (drop (15 + 3) ''```x = 1```\<newline>foo```''))"
    by (simp add: newline_def is_tag_char_def cp_def)
  have e: "extract_code_block ''```x = 1```\<newline>foo```'' = Some ''foo''"
    by (simp add: extract_code_block_def match_at_def fence_def after_tag_def newline_def
        is_tag_char_def cp_def strip_def isspace_def)
  from s o a b e show ?thesis by (intro conjI)
qed

text \<open>
  C10, amended: when no occurrence of three backticks in the text, whether it opens or
  closes a block, is followed, after its run of tag characters, by a newline,
  \<open>extract_code_block\<close> returns \<open>None\<close>; so it does on every text with no newline at all,
  such as \<open>```x = 1```\<close>.
\<close>

theorem extract_code_block_needs_newline:
  "((\<forall>i<length resp. prefix fence (drop i resp) \<longrightarrow>
        \<not> prefix [newline] (dropWhile is_tag_char (drop (i + 3) resp))) \<longrightarrow>
      extract_code_block resp = None) \<and>
   (newline \<notin> set resp \<longrightarrow> extract_code_block resp = None)"
proof (intro conjI impI)
  assume h: "\<forall>i<length resp. prefix fence (drop i resp) \<longrightarrow>
        \<not> prefix [newline] (dropWhile is_tag_char (drop (i + 3) resp))"
  have "\<not> block_at (drop i resp) b" for i b
  proof
    assume "block_at (drop i resp) b"
    then have o: "prefix fence (drop i resp)"
        "prefix [newline] (dropWhile is_tag_char (drop 3 (drop i resp)))"
        "newline \<in> set (drop i resp)"
      using block_at_opening by blast+
    from o(3) have "i < length resp" by (cases "i < length resp") simp_all
    with h o(1) have "\<not> prefix [newline] (dropWhile is_tag_char (drop (i + 3) resp))"
      by blast
    with o(2) show False by (simp add: add.commute)
  qed
  then show "extract_code_block resp = None"
    by (simp add: extract_None search_no_block)
next
  assume n: "newline \<notin> set resp"
  have "\<not> block_at (drop i resp) b" for i b
  proof
    assume "block_at (drop i resp) b"
    then have "newline \<in> set (drop i resp)"
      using block_at_opening by blast
    then have "newline \<in> set resp" by (rule in_set_dropD)
    with n show False by contradiction
  qed
  then show "extract_code_block resp = None"
    by (simp add: extract_None search_no_block)
qed

theorem extract_code_block_needs_newline_witness:
  "\<not> (\<exists>i<length ''```x = 1```''. prefix fence (drop i ''```x = 1```'') \<and>
        prefix [newline] (dropWhile is_tag_char (drop (i + 3) ''```x = 1```''))) \<and>
   newline \<notin> set ''```x = 1```'' \<and>
   extract_code_block ''```x = 1```'' = None"
proof -
  have h: "\<forall>i<length ''```x = 1```''. prefix fence (drop i ''```x = 1```'') \<longrightarrow>
        \<not> prefix [newline] (dropWhile is_tag_char (drop (i + 3) ''```x = 1```''))"
    by (simp add: All_less_Suc fence_def newline_def is_tag_char_def cp_def)
  have n: "newline \<notin> set ''```x = 1```''"
    by (simp add: newline_def)
  from h extract_code_block_needs_newline [of "''```x = 1```''"]
  have "extract_code_block ''```x = 1```'' = None"
    by blast
  moreover from h have "\<not> (\<exists>i<length ''```x = 1```''. prefix fence (drop i ''```x = 1```'') \<and>
        prefix [newline] (dropWhile is_tag_char (drop (i + 3) ''```x = 1```'')))"
    by blast
  ultimately show ?thesis using n by blast
qed

section \<open>Prompt builder: composition\<close>


lemma build_system_prompt_strings:
  assumes "get st ''persistent_context'' (JStr '''') = JStr c"
    and "get st ''nx_version'' (JStr '''') = JStr v"
  shows "build_system_prompt st =
     Inr (prompt_base (strip v)
          @ (if strip c = [] then [] else permanent_instructions (strip c))
          @ response_format)"
  using assms by (simp add: build_system_prompt_def Let_def)

lemma sublist_mid: "sublist xs (ps @ xs @ ss)"
  by (auto simp: sublist_def)








section \<open>Processing a turn: the message list\<close>

lemma role_of_field: "field m ''role'' = Some r \<Longrightarrow> role_of m = Inr r"
  by (cases m) simp_all

lemma replay_filter:
  assumes "\<forall>m\<in>set hist. \<exists>r. field m ''role'' = Some r"
  shows "replay hist msgs =
     Inr (msgs @ filter (\<lambda>m. has_role m ''user'' \<or> has_role m ''assistant'') hist)"
  using assms
proof (induction hist arbitrary: msgs)
  case Nil
  show ?case by simp
next
  case (Cons m ms)
  from Cons.prems obtain r where r: "field m ''role'' = Some r" by auto
  from Cons.prems have rest: "\<forall>m\<in>set ms. \<exists>r. field m ''role'' = Some r" by simp
  have keep: "(has_role m ''user'' \<or> has_role m ''assistant'')
      \<longleftrightarrow> (r = JStr ''user'' \<or> r = JStr ''assistant'')"
    using r by (simp add: has_role_def)
  show ?case
    using Cons.IH [OF rest] role_of_field [OF r] keep by simp
qed

lemma message_role: "has_role (message role content) r \<longleftrightarrow> role = r"
  by (simp add: has_role_def message_def)

lemma has_role_unique: "has_role m r \<Longrightarrow> has_role m r' \<Longrightarrow> r = r'"
  by (simp add: has_role_def)

lemma assemble_messages_list:
  assumes "get st ''persistent_context'' (JStr '''') = JStr c"
    and "get st ''nx_version'' (JStr '''') = JStr v"
    and "st ''messages'' = Some (JList hist)"
    and "\<forall>m\<in>set hist. \<exists>r. field m ''role'' = Some r"
  shows "\<exists>prompt. build_system_prompt st = Inr prompt \<and>
     assemble_messages st code_msg =
       Inr ([message ''system'' prompt]
            @ filter (\<lambda>m. has_role m ''user'' \<or> has_role m ''assistant'') hist
            @ [message ''user'' code_msg, message ''user'' final_instruction])"
proof -
  from assms(1,2) obtain prompt where p: "build_system_prompt st = Inr prompt"
    by (simp add: build_system_prompt_strings)
  then have "assemble_messages st code_msg =
       Inr ([message ''system'' prompt]
            @ filter (\<lambda>m. has_role m ''user'' \<or> has_role m ''assistant'') hist
            @ [message ''user'' code_msg, message ''user'' final_instruction])"
    using assms(3) replay_filter [OF assms(4)] by (simp add: assemble_messages_def)
  with p show ?thesis by blast
qed

lemma clean_and_improve_world:
  assumes "api_key \<noteq> []" and "code_message selected files = Inr code_msg"
    and "assemble_messages st code_msg = Inr msgs"
  shows "snd (clean_and_improve api_key client cfg selected files st w)
     = snd (call_openai client cfg msgs w)"
  using assms
  by (auto simp: clean_and_improve_def split: prod.splits sum.splits error.splits)

lemma call_openai_sends:
  "\<exists>n. 1 \<le> n \<and> n \<le> 3 \<and>
     calls (snd (call_openai client cfg msgs w)) = calls w @ replicate n (request_of cfg msgs)"
proof -
  from attempts_log [of "[0, 1, 2]" client "request_of cfg msgs" None w]
  obtain n where "1 \<le> n" "n \<le> 3"
      "calls (snd (attempts client (request_of cfg msgs) [0, 1, 2] None w))
         = calls w @ replicate n (request_of cfg msgs)"
    unfolding three_attempts by blast
  then show ?thesis unfolding call_openai_def by blast
qed

text \<open>
  C6: when the session state is well formed (the persistent context and the version
  are strings, the history is a list of dicts that each have a \<open>role\<close>), the message
  list built on a turn is, in order: the dict of role \<open>system\<close> whose content is the
  prompt just built from the state; the history messages whose role is \<open>user\<close> or
  \<open>assistant\<close>, as they are; the dict of role \<open>user\<close> whose content is the code message;
  the dict of role \<open>user\<close> whose content is the fixed instruction to return the final
  code in a single block. No message after the first has the role \<open>system\<close>. With an
  API key, every request of the turn carries this list, with the settings of the
  sidebar. The code message wraps the selected file's text, or the texts of all files
  under their headers.
\<close>

theorem turn_message_list:
  "(get st ''persistent_context'' (JStr '''') = JStr c \<and>
    get st ''nx_version'' (JStr '''') = JStr v \<and>
    st ''messages'' = Some (JList hist) \<and>
    (\<forall>m\<in>set hist. \<exists>r. field m ''role'' = Some r) \<longrightarrow>
      (\<exists>prompt msgs. build_system_prompt st = Inr prompt \<and>
         prompt = prompt_base (strip v)
                  @ (if strip c = [] then [] else permanent_instructions (strip c))
                  @ response_format \<and>
         assemble_messages st code_msg = Inr msgs \<and>
         msgs = [JObj [(''role'', JStr ''system''), (''content'', JStr prompt)]]
                @ filter (\<lambda>m. field m ''role'' = Some (JStr ''user'') \<or>
                              field m ''role'' = Some (JStr ''assistant'')) hist
                @ [JObj [(''role'', JStr ''user''), (''content'', JStr code_msg)],
                   JObj [(''role'', JStr ''user''),
                         (''content'', JStr ''Process the file(s) respecting the persistent context and the indicated NX version. Return the final code in a single block.'')]] \<and>
         (\<forall>m\<in>set (tl msgs). field m ''role'' \<noteq> Some (JStr ''system'')) \<and>
         (api_key \<noteq> [] \<and> code_message selected files = Inr code_msg \<longrightarrow>
            (\<exists>n. 1 \<le> n \<and> n \<le> 3 \<and>
               calls (snd (clean_and_improve api_key client cfg selected files st w))
                 = calls w @ replicate n
                     \<lparr>model = model cfg, temperature = temperature cfg,
                      max_tokens = max_tokens cfg, messages = msgs\<rparr>)))) \<and>
   (selected = Some sel \<and> sel \<noteq> [] \<and> map_of files sel = Some code \<longrightarrow>
      code_message selected files =
        Inr (''Received code (file: '' @ sel @ ''):\<newline>```auto\<newline>'' @ code @ ''\<newline>```'')) \<and>
   (selected = None \<longrightarrow>
      code_message selected files =
        Inr (''Received code (multiple files unified):\<newline>```auto\<newline>''
             @ join ''\<newline>\<newline>''
                 (map (\<lambda>(fname, code). ''// ==== ARCHIVO: '' @ fname @ '' ====\<newline>'' @ code) files)
             @ ''\<newline>```''))"
proof (intro conjI impI)
  assume a: "get st ''persistent_context'' (JStr '''') = JStr c \<and>
    get st ''nx_version'' (JStr '''') = JStr v \<and>
    st ''messages'' = Some (JList hist) \<and>
    (\<forall>m\<in>set hist. \<exists>r. field m ''role'' = Some r)"
  let ?prompt = "prompt_base (strip v)
                  @ (if strip c = [] then [] else permanent_instructions (strip c))
                  @ response_format"
  let ?msgs = "[JObj [(''role'', JStr ''system''), (''content'', JStr ?prompt)]]
                @ filter (\<lambda>m. field m ''role'' = Some (JStr ''user'') \<or>
                              field m ''role'' = Some (JStr ''assistant'')) hist
                @ [JObj [(''role'', JStr ''user''), (''content'', JStr code_msg)],
                   JObj [(''role'', JStr ''user''),
                         (''content'', JStr ''Process the file(s) respecting the persistent context and the indicated NX version. Return the final code in a single block.'')]]"
  have p: "build_system_prompt st = Inr ?prompt"
    using a by (simp add: build_system_prompt_strings)
  from a p have "assemble_messages st code_msg =
       Inr ([message ''system'' ?prompt]
            @ filter (\<lambda>m. has_role m ''user'' \<or> has_role m ''assistant'') hist
            @ [message ''user'' code_msg, message ''user'' final_instruction])"
    using assemble_messages_list [of st c v hist code_msg] by auto
  then have m: "assemble_messages st code_msg = Inr ?msgs"
    by (simp add: message_def has_role_def final_instruction_def)
  have nosys: "\<forall>m\<in>set (tl ?msgs). field m ''role'' \<noteq> Some (JStr ''system'')"
    by auto
  have sent: "api_key \<noteq> [] \<and> code_message selected files = Inr code_msg \<longrightarrow>
            (\<exists>n. 1 \<le> n \<and> n \<le> 3 \<and>
               calls (snd (clean_and_improve api_key client cfg selected files st w))
                 = calls w @ replicate n
                     \<lparr>model = model cfg, temperature = temperature cfg,
                      max_tokens = max_tokens cfg, messages = ?msgs\<rparr>)"
  proof
    assume k: "api_key \<noteq> [] \<and> code_message selected files = Inr code_msg"
    then have "snd (clean_and_improve api_key client cfg selected files st w)
       = snd (call_openai client cfg ?msgs w)"
      using m clean_and_improve_world [of api_key selected files code_msg st ?msgs client cfg w]
      by blast
    then show "\<exists>n. 1 \<le> n \<and> n \<le> 3 \<and>
               calls (snd (clean_and_improve api_key client cfg selected files st w))
                 = calls w @ replicate n
                     \<lparr>model = model cfg, temperature = temperature cfg,
                      max_tokens = max_tokens cfg, messages = ?msgs\<rparr>"
      using call_openai_sends [of client cfg ?msgs w] by (simp add: request_of_def)
  qed
  from p m nosys sent
  show "\<exists>prompt msgs. build_system_prompt st = Inr prompt \<and>
         prompt = prompt_base (strip v)
                  @ (if strip c = [] then [] else permanent_instructions (strip c))
                  @ response_format \<and>
         assemble_messages st code_msg = Inr msgs \<and>
         msgs = [JObj [(''role'', JStr ''system''), (''content'', JStr prompt)]]
                @ filter (\<lambda>m. field m ''role'' = Some (JStr ''user'') \<or>
                              field m ''role'' = Some (JStr ''assistant'')) hist
                @ [JObj [(''role'', JStr ''user''), (''content'', JStr code_msg)],
                   JObj [(''role'', JStr ''user''),
                         (''content'', JStr ''Process the file(s) respecting the persistent context and the indicated NX version. Return the final code in a single block.'')]] \<and>
         (\<forall>m\<in>set (tl msgs). field m ''role'' \<noteq> Some (JStr ''system'')) \<and>
         (api_key \<noteq> [] \<and> code_message selected files = Inr code_msg \<longrightarrow>
            (\<exists>n. 1 \<le> n \<and> n \<le> 3 \<and>
               calls (snd (clean_and_improve api_key client cfg selected files st w))
                 = calls w @ replicate n
                     \<lparr>model = model cfg, temperature = temperature cfg,
                      max_tokens = max_tokens cfg, messages = msgs\<rparr>))"
    by blast
next
  assume "selected = Some sel \<and> sel \<noteq> [] \<and> map_of files sel = Some code"
  then show "code_message selected files =
        Inr (''Received code (file: '' @ sel @ ''):\<newline>```auto\<newline>'' @ code @ ''\<newline>```'')"
    by (simp add: code_message_def)
next
  assume "selected = None"
  then show "code_message selected files =
        Inr (''Received code (multiple files unified):\<newline>```auto\<newline>''
             @ join ''\<newline>\<newline>''
                 (map (\<lambda>(fname, code). ''// ==== ARCHIVO: '' @ fname @ '' ====\<newline>'' @ code) files)
             @ ''\<newline>```'')"
    by (simp add: code_message_def)
qed

theorem turn_message_list_witness:
  "get [''persistent_context'' \<mapsto> JStr ''keep names in English'',
        ''nx_version'' \<mapsto> JStr ''NX 2212'',
        ''messages'' \<mapsto> JList
           [JObj [(''role'', JStr ''system''), (''content'', JStr ''old prompt'')],
            JObj [(''role'', JStr ''user''), (''content'', JStr ''hello'')],
            JObj [(''role'', JStr ''assistant''), (''content'', JStr ''hi'')]]]
      ''persistent_context'' (JStr '''') = JStr ''keep names in English'' \<and>
   \<not> (\<exists>m\<in>set [JObj [(''role'', JStr ''system''), (''content'', JStr ''old prompt'')],
            JObj [(''role'', JStr ''user''), (''content'', JStr ''hello'')],
            JObj [(''role'', JStr ''assistant''), (''content'', JStr ''hi'')]].
         field m ''role'' = None) \<and>
   code_message (Some ''a.py'') [(''a.py'', ''x = 1'')]
     = Inr ''Received code (file: a.py):\<newline>```auto\<newline>x = 1\<newline>```'' \<and>
   assemble_messages
      [''persistent_context'' \<mapsto> JStr ''keep names in English'',
       ''nx_version'' \<mapsto> JStr ''NX 2212'',
       ''messages'' \<mapsto> JList
           [JObj [(''role'', JStr ''system''), (''content'', JStr ''old prompt'')],
            JObj [(''role'', JStr ''user''), (''content'', JStr ''hello'')],
            JObj [(''role'', JStr ''assistant''), (''content'', JStr ''hi'')]]]
      ''Received code (file: a.py):\<newline>```auto\<newline>x = 1\<newline>```''
     = Inr [JObj [(''role'', JStr ''system''),
                  (''content'', JStr (prompt_base ''NX 2212''
                     @ permanent_instructions ''keep names in English'' @ response_format))],
            JObj [(''role'', JStr ''user''), (''content'', JStr ''hello'')],
            JObj [(''role'', JStr ''assistant''), (''content'', JStr ''hi'')],
            JObj [(''role'', JStr ''user''),
                  (''content'', JStr ''Received code (file: a.py):\<newline>```auto\<newline>x = 1\<newline>```'')],
            JObj [(''role'', JStr ''user''),
                  (''content'', JStr ''Process the file(s) respecting the persistent context and the indicated NX version. Return the final code in a single block.'')]]"
proof -
  let ?hist = "[JObj [(''role'', JStr ''system''), (''content'', JStr ''old prompt'')],
            JObj [(''role'', JStr ''user''), (''content'', JStr ''hello'')],
            JObj [(''role'', JStr ''assistant''), (''content'', JStr ''hi'')]]"
  let ?st = "[''persistent_context'' \<mapsto> JStr ''keep names in English'',
              ''nx_version'' \<mapsto> JStr ''NX 2212'',
              ''messages'' \<mapsto> JList ?hist] :: state"
  let ?code = "''Received code (file: a.py):\<newline>```auto\<newline>x = 1\<newline>```''"
  note t = turn_message_list [of ?st "''keep names in English''" "''NX 2212''" ?hist ?code
      "''sk-key''" "Some ''a.py''" "[(''a.py'', ''x = 1'')]" "\<lambda>k rq. Returned ''ok''"
      "\<lparr>model = ''gpt-4o-mini'', temperature = Finite 1 (- 1), max_tokens = 1600\<rparr>"
      "\<lparr>calls = [], sleeps = []\<rparr>" "''a.py''" "''x = 1''"]
  have h: "get ?st ''persistent_context'' (JStr '''') = JStr ''keep names in English'' \<and>
      get ?st ''nx_version'' (JStr '''') = JStr ''NX 2212'' \<and>
      ?st ''messages'' = Some (JList ?hist) \<and>
      (\<forall>m\<in>set ?hist. \<exists>r. field m ''role'' = Some r)"
    by (simp add: get_def)
  have k: "Some ''a.py'' = Some ''a.py'' \<and> ''a.py'' \<noteq> [] \<and>
      map_of [(''a.py'', ''x = 1'')] ''a.py'' = Some ''x = 1''"
    by simp
  have s: "strip ''keep names in English'' = ''keep names in English''"
      "strip ''NX 2212'' = ''NX 2212''"
    by (simp_all add: strip_def isspace_def cp_def)
  have f: "filter (\<lambda>m. field m ''role'' = Some (JStr ''user'') \<or>
                        field m ''role'' = Some (JStr ''assistant'')) ?hist
      = [JObj [(''role'', JStr ''user''), (''content'', JStr ''hello'')],
         JObj [(''role'', JStr ''assistant''), (''content'', JStr ''hi'')]]"
    by simp
  from t [THEN conjunct2, THEN conjunct1, THEN mp, OF k]
  have c: "code_message (Some ''a.py'') [(''a.py'', ''x = 1'')] = Inr ?code"
    by simp
  from t [THEN conjunct1, THEN mp, OF h]
  have "assemble_messages ?st ?code =
     Inr ([JObj [(''role'', JStr ''system''),
                 (''content'', JStr (prompt_base (strip ''NX 2212'')
                  @ (if strip ''keep names in English'' = [] then []
                     else permanent_instructions (strip ''keep names in English''))
                  @ response_format))]]
          @ filter (\<lambda>m. field m ''role'' = Some (JStr ''user'') \<or>
                        field m ''role'' = Some (JStr ''assistant'')) ?hist
          @ [JObj [(''role'', JStr ''user''), (''content'', JStr ?code)],
             JObj [(''role'', JStr ''user''),
                   (''content'', JStr ''Process the file(s) respecting the persistent context and the indicated NX version. Return the final code in a single block.'')]])"
    by (elim exE conjE) (simp only:)
  with s f have a: "assemble_messages ?st ?code
     = Inr [JObj [(''role'', JStr ''system''),
                  (''content'', JStr (prompt_base ''NX 2212''
                     @ permanent_instructions ''keep names in English'' @ response_format))],
            JObj [(''role'', JStr ''user''), (''content'', JStr ''hello'')],
            JObj [(''role'', JStr ''assistant''), (''content'', JStr ''hi'')],
            JObj [(''role'', JStr ''user''), (''content'', JStr ?code)],
            JObj [(''role'', JStr ''user''),
                  (''content'', JStr ''Process the file(s) respecting the persistent context and the indicated NX version. Return the final code in a single block.'')]]"
    by simp
  have n: "\<not> (\<exists>m\<in>set ?hist. field m ''role'' = None)"
    by simp
  from h have g: "get ?st ''persistent_context'' (JStr '''') = JStr ''keep names in English''"
    by (rule conjunct1)
  from g n c a show ?thesis by (intro conjI)
qed

section \<open>Processing a turn: the download offer\<close>

lemma offer_download_code:
  "extract_code_block result = Some code \<Longrightarrow> code \<noteq> [] \<Longrightarrow>
     offer_download selected result = DownloadButton ''improved_code.py'' code"
  by (simp add: offer_download_def Let_def split: option.splits)

lemma offer_download_none:
  "extract_code_block result = Some [] \<or> extract_code_block result = None \<Longrightarrow>
     offer_download selected result = InfoNoCodeBlock"
  by (auto simp: offer_download_def)

lemma clean_and_improve_success:
  assumes "api_key \<noteq> []" and "code_message selected files = Inr code_msg"
    and "assemble_messages st code_msg = Inr msgs"
    and "call_openai client cfg msgs w = (Inr result, w')"
  shows "clean_and_improve api_key client cfg selected files st w =
     (Inr [SuccessDone, ResultHeading, Markdown result, offer_download selected result], w')"
  using assms by (simp add: clean_and_improve_def)

text \<open>
  C9, as stated, at the response \<open>```\<close>, newline, \<open>```\<close>: extraction finds the block, whose
  content is empty, and the turn, which succeeds, offers no download: it shows the
  notice that no code block was found.
\<close>

theorem offer_download_empty_block_counterexample:
  "extract_code_block ''```\<newline>```'' = Some [] \<and>
   offer_download (Some ''a.py'') ''```\<newline>```'' = InfoNoCodeBlock \<and>
   fst (clean_and_improve ''sk-key'' (\<lambda>k rq. Returned ''```\<newline>```'')
      \<lparr>model = ''gpt-4o-mini'', temperature = Finite 1 (- 1), max_tokens = 1600\<rparr>
      (Some ''a.py'') [(''a.py'', ''x = 1'')]
      [''persistent_context'' \<mapsto> JStr '''', ''nx_version'' \<mapsto> JStr ''NX 2212'',
       ''messages'' \<mapsto> JList []]
      \<lparr>calls = [], sleeps = []\<rparr>)
     = Inr [SuccessDone, ResultHeading, Markdown ''```\<newline>```'', InfoNoCodeBlock]"
proof -
  have e: "extract_code_block ''```\<newline>```'' = Some []"
    by (simp add: extract_code_block_def match_at_def fence_def after_tag_def newline_def
        is_tag_char_def cp_def strip_def isspace_def)
  then have o: "offer_download (Some ''a.py'') ''```\<newline>```'' = InfoNoCodeBlock"
    by (simp add: offer_download_def)
  have c: "code_message (Some ''a.py'') [(''a.py'', ''x = 1'')]
      = Inr ''Received code (file: a.py):\<newline>```auto\<newline>x = 1\<newline>```''"
    by (simp add: code_message_def)
  have "\<exists>msgs. assemble_messages [''persistent_context'' \<mapsto> JStr '''',
       ''nx_version'' \<mapsto> JStr ''NX 2212'', ''messages'' \<mapsto> JList []]
       ''Received code (file: a.py):\<newline>```auto\<newline>x = 1\<newline>```'' = Inr msgs"
    by (simp add: assemble_messages_def build_system_prompt_def get_def Let_def)
  then obtain msgs where a: "assemble_messages [''persistent_context'' \<mapsto> JStr '''',
       ''nx_version'' \<mapsto> JStr ''NX 2212'', ''messages'' \<mapsto> JList []]
       ''Received code (file: a.py):\<newline>```auto\<newline>x = 1\<newline>```'' = Inr msgs"
    by blast
  have "fst (call_openai (\<lambda>k rq. Returned ''```\<newline>```'')
      \<lparr>model = ''gpt-4o-mini'', temperature = Finite 1 (- 1), max_tokens = 1600\<rparr>
      msgs \<lparr>calls = [], sleeps = []\<rparr>) = Inr ''```\<newline>```''"
    by (simp add: call_openai_def)
  then have "fst (clean_and_improve ''sk-key'' (\<lambda>k rq. Returned ''```\<newline>```'')
      \<lparr>model = ''gpt-4o-mini'', temperature = Finite 1 (- 1), max_tokens = 1600\<rparr>
      (Some ''a.py'') [(''a.py'', ''x = 1'')]
      [''persistent_context'' \<mapsto> JStr '''', ''nx_version'' \<mapsto> JStr ''NX 2212'',
       ''messages'' \<mapsto> JList []]
      \<lparr>calls = [], sleeps = []\<rparr>)
     = Inr [SuccessDone, ResultHeading, Markdown ''```\<newline>```'',
            offer_download (Some ''a.py'') ''```\<newline>```'']"
    using c a by (auto simp: clean_and_improve_def split: prod.splits sum.splits)
  with e o show ?thesis by simp
qed

text \<open>
  C9, amended: on a successful turn where extraction finds a fenced block whose trimmed
  content is not empty, the content is offered for download, whatever file was
  processed (a selected \<open>.py\<close>, \<open>.cs\<close> or \<open>.txt\<close> file, or all files together). The file
  name is fixed for the file processed: it does not depend on the response. For a
  selected file whose name ends in \<open>.py\<close>, in any letter case, it is \<open>improved_code.py\<close>.
  When the content is empty or no block is found, the notice is shown and nothing is
  offered.
\<close>

theorem offer_download_nonempty:
  "(extract_code_block result = Some code \<and> code \<noteq> [] \<longrightarrow>
      (\<exists>out_name. offer_download selected result = DownloadButton out_name code)) \<and>
   (offer_download selected result = DownloadButton n d \<and>
    offer_download selected result' = DownloadButton n' d' \<longrightarrow> n = n') \<and>
   (offer_download selected result = DownloadButton n d \<and>
    selected = Some sel \<and> sel \<noteq> [] \<and> endswith (lower sel) ''.py'' \<longrightarrow>
      n = ''improved_code.py'') \<and>
   (extract_code_block result = Some [] \<or> extract_code_block result = None \<longrightarrow>
      offer_download selected result = InfoNoCodeBlock) \<and>
   (api_key \<noteq> [] \<and> code_message selected files = Inr code_msg \<and>
    assemble_messages st code_msg = Inr msgs \<and>
    call_openai client cfg msgs w = (Inr result, w') \<and>
    extract_code_block result = Some code \<and> code \<noteq> [] \<longrightarrow>
      (\<exists>out_name. clean_and_improve api_key client cfg selected files st w =
        (Inr [SuccessDone, ResultHeading, Markdown result,
              DownloadButton out_name code], w')))"
proof (intro conjI impI)
  assume "extract_code_block result = Some code \<and> code \<noteq> []"
  then have "offer_download selected result = DownloadButton ''improved_code.py'' code"
    by (simp add: offer_download_code)
  then show "\<exists>out_name. offer_download selected result = DownloadButton out_name code"
    by (rule exI)
next
  assume "offer_download selected result = DownloadButton n d \<and>
    offer_download selected result' = DownloadButton n' d'"
  then show "n = n'"
    by (auto simp: offer_download_def Let_def split: option.splits if_splits)
next
  assume "offer_download selected result = DownloadButton n d \<and>
    selected = Some sel \<and> sel \<noteq> [] \<and> endswith (lower sel) ''.py''"
  then show "n = ''improved_code.py''"
    by (auto simp: offer_download_def Let_def split: option.splits if_splits)
next
  assume "extract_code_block result = Some [] \<or> extract_code_block result = None"
  then show "offer_download selected result = InfoNoCodeBlock"
    by (rule offer_download_none)
next
  assume a: "api_key \<noteq> [] \<and> code_message selected files = Inr code_msg \<and>
    assemble_messages st code_msg = Inr msgs \<and>
    call_openai client cfg msgs w = (Inr result, w') \<and>
    extract_code_block result = Some code \<and> code \<noteq> []"
  then have "clean_and_improve api_key client cfg selected files st w =
     (Inr [SuccessDone, ResultHeading, Markdown result, offer_download selected result], w')"
    using clean_and_improve_success [of api_key selected files code_msg st msgs client cfg w result w']
    by blast
  moreover from a have "offer_download selected result = DownloadButton ''improved_code.py'' code"
    by (simp add: offer_download_code)
  ultimately have "clean_and_improve api_key client cfg selected files st w =
        (Inr [SuccessDone, ResultHeading, Markdown result,
              DownloadButton ''improved_code.py'' code], w')"
    by simp
  then show "\<exists>out_name. clean_and_improve api_key client cfg selected files st w =
        (Inr [SuccessDone, ResultHeading, Markdown result,
              DownloadButton out_name code], w')"
    by (rule exI)
qed

theorem offer_download_nonempty_witness:
  "extract_code_block ''Here it is:\<newline>```python\<newline>x = 2\<newline>```\<newline>'' = Some ''x = 2'' \<and>
   endswith (lower ''Journal.PY'') ''.py'' \<and>
   offer_download (Some ''Journal.PY'') ''Here it is:\<newline>```python\<newline>x = 2\<newline>```\<newline>''
     = DownloadButton ''improved_code.py'' ''x = 2'' \<and>
   (\<exists>out_name. offer_download (Some ''Main.cs'')
        ''Here it is:\<newline>```python\<newline>x = 2\<newline>```\<newline>''
     = DownloadButton out_name ''x = 2'') \<and>
   (\<exists>out_name. offer_download None ''Here it is:\<newline>```python\<newline>x = 2\<newline>```\<newline>''
     = DownloadButton out_name ''x = 2'') \<and>
   offer_download (Some ''Main.cs'') ''no code here'' = InfoNoCodeBlock \<and>
   (\<exists>out_name. fst (clean_and_improve ''sk-key''
        (\<lambda>k rq. Returned ''Here it is:\<newline>```python\<newline>x = 2\<newline>```\<newline>'')
        \<lparr>model = ''gpt-4o-mini'', temperature = Finite 1 (- 1), max_tokens = 1600\<rparr>
        (Some ''Journal.PY'') [(''Journal.PY'', ''x = 1'')]
        [''persistent_context'' \<mapsto> JStr '''', ''nx_version'' \<mapsto> JStr ''NX 2212'',
         ''messages'' \<mapsto> JList []]
        \<lparr>calls = [], sleeps = []\<rparr>)
      = Inr [SuccessDone, ResultHeading,
             Markdown ''Here it is:\<newline>```python\<newline>x = 2\<newline>```\<newline>'',
             DownloadButton out_name ''x = 2''])"
proof -
  let ?r = "''Here it is:\<newline>```python\<newline>x = 2\<newline>```\<newline>''"
  let ?cfg = "\<lparr>model = ''gpt-4o-mini'', temperature = Finite 1 (- 1), max_tokens = 1600\<rparr>"
  let ?st = "[''persistent_context'' \<mapsto> JStr '''', ''nx_version'' \<mapsto> JStr ''NX 2212'',
         ''messages'' \<mapsto> JList []] :: state"
  let ?w = "\<lparr>calls = [], sleeps = []\<rparr>"
  let ?cl = "\<lambda>(k::nat) (rq::request). Returned ?r"
  let ?cm = "''Received code (file: Journal.PY):\<newline>```auto\<newline>x = 1\<newline>```''"
  have e: "extract_code_block ?r = Some ''x = 2'' \<and> ''x = 2'' \<noteq> []"
    by (simp add: extract_code_block_def match_at_def fence_def after_tag_def newline_def
        is_tag_char_def cp_def strip_def isspace_def)
  have p: "endswith (lower ''Journal.PY'') ''.py''"
    by (simp add: endswith_def lower_def lower_char_def cp_def char_of_def bit_iff_odd)
  have z: "extract_code_block ''no code here'' = Some [] \<or>
      extract_code_block ''no code here'' = None"
    by (simp add: extract_code_block_def match_at_def fence_def)
  note py = offer_download_nonempty [where result = ?r and code = "''x = 2''"
      and selected = "Some ''Journal.PY''" and sel = "''Journal.PY''"]
  note cs = offer_download_nonempty [where result = ?r and code = "''x = 2''"
      and selected = "Some ''Main.cs''"]
  note un = offer_download_nonempty [where result = ?r and code = "''x = 2''"
      and selected = None]
  note no = offer_download_nonempty [where result = "''no code here''"
      and selected = "Some ''Main.cs''"]
  from py e obtain out_name where
    o: "offer_download (Some ''Journal.PY'') ?r = DownloadButton out_name ''x = 2''"
    by blast
  with py p have "out_name = ''improved_code.py''"
    by blast
  with o have 1: "offer_download (Some ''Journal.PY'') ?r
      = DownloadButton ''improved_code.py'' ''x = 2''"
    by simp
  from cs e have 2: "\<exists>out_name. offer_download (Some ''Main.cs'') ?r
      = DownloadButton out_name ''x = 2''"
    by blast
  from un e have 3: "\<exists>out_name. offer_download None ?r = DownloadButton out_name ''x = 2''"
    by blast
  from no z have 4: "offer_download (Some ''Main.cs'') ''no code here'' = InfoNoCodeBlock"
    by blast
  have c: "code_message (Some ''Journal.PY'') [(''Journal.PY'', ''x = 1'')] = Inr ?cm"
    by (simp add: code_message_def)
  have "\<exists>msgs. assemble_messages ?st ?cm = Inr msgs"
    by (simp add: assemble_messages_def build_system_prompt_def get_def Let_def)
  then obtain msgs where a: "assemble_messages ?st ?cm = Inr msgs"
    by (rule exE)
  have k: "call_openai ?cl ?cfg msgs ?w = (Inr ?r, snd (call_openai ?cl ?cfg msgs ?w))"
    by (simp add: call_openai_def)
  have hyp: "''sk-key'' \<noteq> [] \<and>
      code_message (Some ''Journal.PY'') [(''Journal.PY'', ''x = 1'')] = Inr ?cm \<and>
      assemble_messages ?st ?cm = Inr msgs \<and>
      call_openai ?cl ?cfg msgs ?w = (Inr ?r, snd (call_openai ?cl ?cfg msgs ?w)) \<and>
      extract_code_block ?r = Some ''x = 2'' \<and> ''x = 2'' \<noteq> []"
    using c a k e by simp
  from offer_download_nonempty [of ?r "''x = 2''" "Some ''Journal.PY''" "''n''" "''d''" ?r
      "''n''" "''d''" "''Journal.PY''" "''sk-key''" "[(''Journal.PY'', ''x = 1'')]" ?cm ?st msgs
      ?cl ?cfg ?w "snd (call_openai ?cl ?cfg msgs ?w)",
      THEN conjunct2, THEN conjunct2, THEN conjunct2, THEN conjunct2, THEN mp, OF hyp]
  have 5: "\<exists>out_name. fst (clean_and_improve ''sk-key'' ?cl ?cfg (Some ''Journal.PY'')
        [(''Journal.PY'', ''x = 1'')] ?st ?w)
      = Inr [SuccessDone, ResultHeading, Markdown ?r, DownloadButton out_name ''x = 2'']"
    by (elim exE) (rule exI, simp)
  from e have e1: "extract_code_block ?r = Some ''x = 2''"
    by (rule conjunct1)
  from e1 p 1 2 3 4 5 show ?thesis by (intro conjI)
qed

end
